theory Spec2Isabelle
  imports Complex_Main
begin

section \<open>Numbers, vectors and matrices\<close>

text \<open>
  The program is JavaScript: every number is an IEEE double (and the components of the
  library's vectors are single-precision). The development has the real numbers in their
  place, so that \<open>+\<close>, \<open>*\<close>, \<open>/\<close>, \<open>min\<close>, \<open>\<bar>x\<bar>\<close> and \<open>sgn\<close>
  (\<open>Math.sign\<close>) are exact, except where the number of fixed steps is counted: there
  the rounding of the clock's arithmetic decides, and \<open>simulate\<close> is given a second
  time with every operation on the clock rounded to the nearest double (sections
  ``IEEE doubles'' and ``The clock in doubles''). Infinities and NaN are outside both.

  \<open>Vector3\<close>, \<open>Vector4\<close> and \<open>Mat4\<close> come from the graphics library that
  \<open>group.js\<close> imports (\<open>./examples/common.js\<close>); the library is not among the
  sources, so its operations are modelled below from the specification's wording.
\<close>

datatype vec3 = Vec3 real real real

datatype vec4 = Vec4 real real real real

text \<open>A \<open>Mat4\<close> is an array of four rows.\<close>

datatype mat4 = Mat4 vec4 vec4 vec4 vec4

text \<open>Modelled from the spec: \<open>Vector3.plus\<close>, the component-wise sum in
  \<open>center + linear_velocity \<cdot> dt\<close>.\<close>

fun plus3 :: "vec3 \<Rightarrow> vec3 \<Rightarrow> vec3" where
  "plus3 (Vec3 a b c) (Vec3 x y z) = Vec3 (a + x) (b + y) (c + z)"

text \<open>Modelled from the spec: \<open>Vector3.times\<close>, the product with a scalar in
  \<open>linear_velocity \<cdot> dt\<close>.\<close>

fun times3 :: "vec3 \<Rightarrow> real \<Rightarrow> vec3" where
  "times3 (Vec3 a b c) s = Vec3 (a * s) (b * s) (c * s)"

text \<open>Modelled from the spec: \<open>Vector3.mix\<close>, the \<open>lerp\<close> of two points,
  \<open>(1 - s) \<cdot> a + s \<cdot> b\<close> in every component.\<close>

fun mix3 :: "vec3 \<Rightarrow> vec3 \<Rightarrow> real \<Rightarrow> vec3" where
  "mix3 (Vec3 a b c) (Vec3 x y z) s =
     Vec3 ((1 - s) * a + s * x) ((1 - s) * b + s * y) ((1 - s) * c + s * z)"

text \<open>Modelled from the spec: \<open>Vector3.dot\<close>, the \<open>p\<cdot>p\<close> of \<open>intersect_sphere\<close>.\<close>

fun dot3 :: "vec3 \<Rightarrow> vec3 \<Rightarrow> real" where
  "dot3 (Vec3 a b c) (Vec3 x y z) = a * x + b * y + c * z"

text \<open>Modelled from the spec: \<open>Array.prototype.every\<close> on the three components of a
  point (``every component of \<open>p\<close>'').\<close>

fun every3 :: "(real \<Rightarrow> bool) \<Rightarrow> vec3 \<Rightarrow> bool" where
  "every3 P (Vec3 a b c) = (P a \<and> P b \<and> P c)"

text \<open>Modelled from the spec: \<open>Vector3.to4\<close> appends the homogeneous coordinate
  (\<open>1\<close> for a point), \<open>Vector4.to3\<close> drops it.\<close>

fun to4 :: "vec3 \<Rightarrow> real \<Rightarrow> vec4" where
  "to4 (Vec3 a b c) w = Vec4 a b c w"

fun to3 :: "vec4 \<Rightarrow> vec3" where
  "to3 (Vec4 a b c w) = Vec3 a b c"

text \<open>Modelled from the spec: the sum, the product with a scalar and the dot product
  of \<open>Vector4\<close>, from which the matrix products below are built.\<close>

fun plus4 :: "vec4 \<Rightarrow> vec4 \<Rightarrow> vec4" where
  "plus4 (Vec4 a b c d) (Vec4 x y z w) = Vec4 (a + x) (b + y) (c + z) (d + w)"

fun times4 :: "vec4 \<Rightarrow> real \<Rightarrow> vec4" where
  "times4 (Vec4 a b c d) s = Vec4 (a * s) (b * s) (c * s) (d * s)"

fun dot4 :: "vec4 \<Rightarrow> vec4 \<Rightarrow> real" where
  "dot4 (Vec4 a b c d) (Vec4 x y z w) = a * x + b * y + c * z + d * w"

text \<open>Modelled from the spec: \<open>Vector4.mix\<close>, the linear blend of two rows.\<close>

fun mix4 :: "vec4 \<Rightarrow> vec4 \<Rightarrow> real \<Rightarrow> vec4" where
  "mix4 (Vec4 a b c d) (Vec4 x y z w) s =
     Vec4 ((1 - s) * a + s * x) ((1 - s) * b + s * y) ((1 - s) * c + s * z)
          ((1 - s) * d + s * w)"

text \<open>Modelled from the spec: \<open>Mat4.identity\<close>, \<open>Mat4.translation\<close> (the
  \<open>translate\<close> of the spec) and \<open>Mat4.scale\<close>, as homogeneous 4\<times>4 matrices. The
  three numbers that the code spreads from a vector (\<open>...v\<close>) are passed as the
  vector.\<close>

definition Mat4_identity :: mat4 where
  "Mat4_identity = Mat4 (Vec4 1 0 0 0) (Vec4 0 1 0 0) (Vec4 0 0 1 0) (Vec4 0 0 0 1)"

fun Mat4_translation :: "vec3 \<Rightarrow> mat4" where
  "Mat4_translation (Vec3 x y z) =
     Mat4 (Vec4 1 0 0 x) (Vec4 0 1 0 y) (Vec4 0 0 1 z) (Vec4 0 0 0 1)"

fun Mat4_scale :: "vec3 \<Rightarrow> mat4" where
  "Mat4_scale (Vec3 x y z) =
     Mat4 (Vec4 x 0 0 0) (Vec4 0 y 0 0) (Vec4 0 0 z 0) (Vec4 0 0 0 1)"

text \<open>Modelled from the spec: \<open>Matrix.times\<close>, the matrix product written \<open>\<cdot>\<close> in
  the spec. Row \<open>i\<close> of \<open>A \<cdot> B\<close> is the combination of the rows of \<open>B\<close> weighted
  by the entries of row \<open>i\<close> of \<open>A\<close>.\<close>

fun row_times :: "vec4 \<Rightarrow> mat4 \<Rightarrow> vec4" where
  "row_times (Vec4 a b c d) (Mat4 r0 r1 r2 r3) =
     plus4 (plus4 (plus4 (times4 r0 a) (times4 r1 b)) (times4 r2 c)) (times4 r3 d)"

fun times_mat :: "mat4 \<Rightarrow> mat4 \<Rightarrow> mat4" where
  "times_mat (Mat4 a0 a1 a2 a3) B =
     Mat4 (row_times a0 B) (row_times a1 B) (row_times a2 B) (row_times a3 B)"

text \<open>Modelled from the spec: \<open>Matrix.times\<close> with a \<open>Vector4\<close> argument, the
  product of a matrix and a column vector.\<close>

fun times_vec :: "mat4 \<Rightarrow> vec4 \<Rightarrow> vec4" where
  "times_vec (Mat4 r0 r1 r2 r3) v = Vec4 (dot4 r0 v) (dot4 r1 v) (dot4 r2 v) (dot4 r3 v)"

section \<open>Body\<close>

text \<open>
  \<open>previous\<close> is the object \<open>{center, rotation}\<close>; a Body has the same two fields
  of its own, so the Body record extends the pose record. \<open>shape\<close> and
  \<open>material\<close> are opaque handles for the renderer and are left out. The fields
  \<open>size\<close> and \<open>inverse\<close> are named \<open>size_v\<close> and \<open>inverse_m\<close>, and the
  matrix product \<open>times\<close> is \<open>times_mat\<close> (the plain names are constants of
  HOL). \<open>inverse_m\<close> is \<open>None\<close> until \<open>update_state\<close> assigns it; the other
  fields are those of a Body that has been through \<open>emplace\<close>.
\<close>

record pose =
  center :: vec3
  rotation :: mat4

record body = pose +
  size_v :: vec3
  user_projectile :: bool
  hit :: bool
  previous :: pose
  drawn_location :: mat4
  temp_matrix :: mat4
  linear_velocity :: vec3
  angular_velocity :: real
  spin_axis :: vec3
  inverse_m :: "mat4 option"

text \<open>\<open>static intersect_cube(p, margin = 0)\<close>; a caller that omits \<open>margin\<close>
  passes \<open>0\<close>.\<close>

definition intersect_cube :: "vec3 \<Rightarrow> real \<Rightarrow> bool" where
  "intersect_cube p margin =
     every3 (\<lambda>value. value \<ge> - 1 - margin \<and> value \<le> 1 + margin) p"

text \<open>\<open>static intersect_sphere(p, margin = 0)\<close>.\<close>

definition intersect_sphere :: "vec3 \<Rightarrow> real \<Rightarrow> bool" where
  "intersect_sphere p margin = (dot3 p p < 1 + margin)"

text \<open>
  \<open>new Body(shape, material, size, user_projectile).emplace(location_matrix,
  linear_velocity, angular_velocity, spin_axis)\<close>: the constructor stores its arguments
  and clears \<open>hit\<close>; \<open>emplace\<close> assigns the initial pose. The default of
  \<open>spin_axis\<close> is a random unit vector, so the model takes it as an argument.
\<close>

definition emplace ::
  "vec3 \<Rightarrow> bool \<Rightarrow> mat4 \<Rightarrow> vec3 \<Rightarrow> real \<Rightarrow> vec3 \<Rightarrow> body" where
  "emplace sz up location_matrix lv av axis =
     (let c = to3 (times_vec location_matrix (Vec4 0 0 0 1));
          r = times_mat (Mat4_translation (times3 c (- 1))) location_matrix
      in \<lparr> center = c, rotation = r,
           size_v = sz, user_projectile = up, hit = False,
           previous = \<lparr> center = c, rotation = r \<rparr>,
           drawn_location = location_matrix,
           temp_matrix = Mat4_identity,
           linear_velocity = lv, angular_velocity = av, spin_axis = axis,
           inverse_m = None \<rparr>)"

text \<open>
  \<open>advance(time_amount)\<close>. \<open>Mat4.rotation\<close> (a rotation by an angle about an
  axis) belongs to the absent library and is the parameter \<open>Mat4_rotation\<close>.
  \<open>pre_multiply(M)\<close> replaces the matrix by \<open>M \<cdot>\<close> itself; \<open>previous\<close> holds
  copies, so it keeps the old rotation.
\<close>

definition advance :: "(real \<Rightarrow> vec3 \<Rightarrow> mat4) \<Rightarrow> real \<Rightarrow> body \<Rightarrow> body" where
  "advance Mat4_rotation time_amount b =
     (let b1 = b\<lparr> previous := \<lparr> center = center b, rotation = rotation b \<rparr> \<rparr>;
          b2 = b1\<lparr> center := plus3 (center b1) (times3 (linear_velocity b1) time_amount) \<rparr>
      in b2\<lparr> rotation :=
               times_mat (Mat4_rotation (time_amount * angular_velocity b2) (spin_axis b2))
                     (rotation b2) \<rparr>)"

text \<open>\<open>blend_rotation(alpha)\<close>: row \<open>i\<close> of the result is
  \<open>vec4(...this.previous.rotation[i]).mix(this.rotation[i], alpha)\<close>.\<close>

fun map_rows2 :: "(vec4 \<Rightarrow> vec4 \<Rightarrow> vec4) \<Rightarrow> mat4 \<Rightarrow> mat4 \<Rightarrow> mat4" where
  "map_rows2 f (Mat4 p0 p1 p2 p3) (Mat4 x0 x1 x2 x3) =
     Mat4 (f p0 x0) (f p1 x1) (f p2 x2) (f p3 x3)"

definition blend_rotation :: "body \<Rightarrow> real \<Rightarrow> mat4" where
  "blend_rotation b alpha =
     map_rows2 (\<lambda>p x. mix4 p x alpha) (rotation (previous b)) (rotation b)"

text \<open>\<open>blend_state(alpha)\<close>.\<close>

definition blend_state :: "real \<Rightarrow> body \<Rightarrow> body" where
  "blend_state alpha b =
     b\<lparr> drawn_location :=
          times_mat (times_mat (Mat4_translation (mix3 (center (previous b)) (center b) alpha))
                       (blend_rotation b alpha))
                (Mat4_scale (size_v b)) \<rparr>"

text \<open>
  \<open>check_if_colliding(b, collider)\<close> compares object identities (\<open>this == b\<close>), so
  the two Bodies are references into a store. The second argument of \<open>times\<close> is a
  preallocated result: the product is written into \<open>this.temp_matrix\<close>. A missing
  \<open>inverse\<close> makes \<open>this.inverse.times\<close> throw a TypeError. The field \<open>points\<close>
  of the collider record is the array \<open>points.arrays.position\<close> of the sample shape.
\<close>

type_synonym ref = nat

type_synonym store = "ref \<Rightarrow> body"

record collider =
  intersect_test :: "vec3 \<Rightarrow> real \<Rightarrow> bool"
  points :: "vec3 list"
  leeway :: real

definition check_if_colliding ::
  "store \<Rightarrow> ref \<Rightarrow> ref \<Rightarrow> collider \<Rightarrow> string + bool \<times> store" where
  "check_if_colliding h a b cl =
     (if a = b then Inr (False, h)
      else case inverse_m (h a) of
        None \<Rightarrow> Inl ''TypeError''
      | Some Minv \<Rightarrow>
          (let T = times_mat Minv (times_mat (drawn_location (h b)) (Mat4_scale (Vec3 1 1.5 1)));
               h1 = h(a := (h a)\<lparr> temp_matrix := T \<rparr>)
           in Inr (list_ex (\<lambda>p. intersect_test cl (to3 (times_vec T (to4 p 1))) (leeway cl))
                           (points cl), h1)))"

section \<open>Simulation\<close>

text \<open>
  The fields that \<open>Simulation\<close>'s constructor assigns. The record is extensible: a
  subclass such as \<open>Group\<close> adds its own fields in the extension. \<open>bodies\<close> holds the
  Bodies by value: the Simulation owns them, and no Body is in the array twice. The
  per-step hook \<open>update_state\<close> is
  a method that a subclass overrides; the model passes it as the argument \<open>upd\<close>,
  a function of \<open>dt\<close> and the whole Simulation that returns the updated Simulation or
  the thrown value. A throw ends the run: the error carries no state.
\<close>

record simulation =
  time_accumulator :: real
  time_scale :: real
  t :: real
  dt :: real
  bodies :: "body list"
  steps_taken :: nat

definition Simulation_new :: simulation where
  "Simulation_new =
     \<lparr> time_accumulator = 0, time_scale = 1, t = 0, dt = 1 / 20, bodies = [],
       steps_taken = 0 \<rparr>"

text \<open>\<open>update_state(dt)\<close> of the base class: \<open>throw "Override this"\<close>.\<close>

definition update_state ::
  "real \<Rightarrow> 'a simulation_scheme \<Rightarrow> string + 'a simulation_scheme" where
  "update_state d s = Inl ''Override this''"

text \<open>The body of the \<open>while\<close> loop of \<open>simulate\<close>: one fixed step.\<close>

definition fixed_step ::
  "(real \<Rightarrow> vec3 \<Rightarrow> mat4) \<Rightarrow> (real \<Rightarrow> 'a simulation_scheme \<Rightarrow> string + 'a simulation_scheme)
     \<Rightarrow> real \<Rightarrow> 'a simulation_scheme \<Rightarrow> string + 'a simulation_scheme" where
  "fixed_step Mat4_rotation upd frame_time s =
     (case upd (dt s) s of
        Inl e \<Rightarrow> Inl e
      | Inr s1 \<Rightarrow>
          (let s2 = s1\<lparr> bodies := map (advance Mat4_rotation (dt s1)) (bodies s1) \<rparr>;
               s3 = s2\<lparr> t := t s2 + sgn frame_time * dt s2 \<rparr>;
               s4 = s3\<lparr> time_accumulator := time_accumulator s3 - sgn frame_time * dt s3 \<rparr>
           in Inr (s4\<lparr> steps_taken := steps_taken s4 + 1 \<rparr>)))"

text \<open>The loop itself may run forever (for instance when \<open>frame_time\<close> is \<open>0\<close>
  while a full step is pending), so it is a partial function: \<open>None\<close> is ``does
  not return''.\<close>

partial_function (option) simulate_loop ::
  "(real \<Rightarrow> vec3 \<Rightarrow> mat4) \<Rightarrow> (real \<Rightarrow> 'a simulation_scheme \<Rightarrow> string + 'a simulation_scheme)
     \<Rightarrow> real \<Rightarrow> 'a simulation_scheme \<Rightarrow> (string + 'a simulation_scheme) option" where
  "simulate_loop Mat4_rotation upd frame_time s =
     (if \<bar>time_accumulator s\<bar> \<ge> dt s then
        (case fixed_step Mat4_rotation upd frame_time s of
           Inl e \<Rightarrow> Some (Inl e)
         | Inr s1 \<Rightarrow> simulate_loop Mat4_rotation upd frame_time s1)
      else Some (Inr s))"

text \<open>The last two lines of \<open>simulate\<close>: every Body is blended with
  \<open>alpha = time_accumulator / dt\<close>.\<close>

definition blend_bodies :: "'a simulation_scheme \<Rightarrow> 'a simulation_scheme" where
  "blend_bodies s =
     (let alpha = time_accumulator s / dt s
      in s\<lparr> bodies := map (blend_state alpha) (bodies s) \<rparr>)"

text \<open>\<open>simulate(frame_time)\<close>, the \<open>step(frame_time)\<close> of the spec.\<close>

definition simulate ::
  "(real \<Rightarrow> vec3 \<Rightarrow> mat4) \<Rightarrow> (real \<Rightarrow> 'a simulation_scheme \<Rightarrow> string + 'a simulation_scheme)
     \<Rightarrow> real \<Rightarrow> 'a simulation_scheme \<Rightarrow> (string + 'a simulation_scheme) option" where
  "simulate Mat4_rotation upd frame_time0 s =
     (let frame_time = time_scale s * frame_time0;
          s1 = s\<lparr> time_accumulator := time_accumulator s + min frame_time 0.1 \<rparr>
      in case simulate_loop Mat4_rotation upd frame_time s1 of
           None \<Rightarrow> None
         | Some (Inl e) \<Rightarrow> Some (Inl e)
         | Some (Inr s2) \<Rightarrow> Some (Inr (blend_bodies s2)))"

section \<open>Hooks, reachable states and sample arguments\<close>

text \<open>
  The clock of a Simulation is \<open>time_accumulator\<close>, \<open>dt\<close>, \<open>time_scale\<close>, \<open>t\<close>
  and \<open>steps_taken\<close>. A hook keeps the clock when no successful call changes any of
  them; \<open>Group.update_state\<close> is such a hook (it touches \<open>counter\<close> and the Bodies).
\<close>

definition hook_keeps_clock ::
  "(real \<Rightarrow> 'a simulation_scheme \<Rightarrow> string + 'a simulation_scheme) \<Rightarrow> bool" where
  "hook_keeps_clock upd \<longleftrightarrow>
     (\<forall>d s s'. upd d s = Inr s' \<longrightarrow>
        time_accumulator s' = time_accumulator s \<and> dt s' = dt s \<and>
        time_scale s' = time_scale s \<and> t s' = t s \<and> steps_taken s' = steps_taken s)"

text \<open>
  The states a Simulation can be in between two \<open>simulate\<close> calls: it is constructed
  with \<open>time_accumulator = 0\<close> and a positive step size (\<open>1 / 20\<close> in the
  constructor), other code changes only the other fields (the control panel changes
  \<open>time_scale\<close>, event handlers push Bodies), and \<open>simulate\<close> returns.
\<close>

inductive reachable ::
  "(real \<Rightarrow> vec3 \<Rightarrow> mat4) \<Rightarrow> (real \<Rightarrow> 'a simulation_scheme \<Rightarrow> string + 'a simulation_scheme)
     \<Rightarrow> 'a simulation_scheme \<Rightarrow> bool"
  for Mat4_rotation upd where
  constructed: "time_accumulator s = 0 \<Longrightarrow> 0 < dt s \<Longrightarrow> reachable Mat4_rotation upd s"
| other_fields:
    "reachable Mat4_rotation upd s \<Longrightarrow> time_accumulator s' = time_accumulator s \<Longrightarrow>
       dt s' = dt s \<Longrightarrow> reachable Mat4_rotation upd s'"
| simulated:
    "reachable Mat4_rotation upd s \<Longrightarrow>
       simulate Mat4_rotation upd frame_time s = Some (Inr s') \<Longrightarrow>
       reachable Mat4_rotation upd s'"

text \<open>
  What a run of the loop with sign \<open>sg\<close> of the scaled frame time leaves behind,
  relative to the state \<open>s\<close> at loop entry: the step size and time scale are kept, less
  than a step is pending, every step taken moved \<open>sg \<cdot> dt\<close> from the accumulator to
  \<open>t\<close>, and the accumulator has not crossed zero unless no step was taken.
\<close>

definition clock_after ::
  "real \<Rightarrow> 'a simulation_scheme \<Rightarrow> 'a simulation_scheme \<Rightarrow> bool" where
  "clock_after sg s s' \<longleftrightarrow>
     dt s' = dt s \<and> time_scale s' = time_scale s \<and>
     \<bar>time_accumulator s'\<bar> < dt s \<and>
     steps_taken s \<le> steps_taken s' \<and>
     time_accumulator s' + sg * (real (steps_taken s') * dt s)
       = time_accumulator s + sg * (real (steps_taken s) * dt s) \<and>
     t s' - sg * (real (steps_taken s') * dt s) = t s - sg * (real (steps_taken s) * dt s) \<and>
     (steps_taken s' = steps_taken s \<and> time_accumulator s' = time_accumulator s
        \<or> sg \<noteq> 0 \<and> 0 \<le> sg * time_accumulator s')"

text \<open>A hook that does nothing (``hook does nothing'' in the spec), used as a sample
  argument.\<close>

definition keep_state ::
  "real \<Rightarrow> 'a simulation_scheme \<Rightarrow> string + 'a simulation_scheme" where
  "keep_state d s = Inr s"

text \<open>Modelled from the spec: \<open>rotate_by(angle, axis)\<close>, the library's
  \<open>Mat4.rotation\<close>, as the rotation matrix by an angle about the normalised
  axis. It is only a sample argument for the parameter \<open>Mat4_rotation\<close>; every
  theorem below holds for any function in its place.\<close>

definition rotate_by :: "real \<Rightarrow> vec3 \<Rightarrow> mat4" where
  "rotate_by angle axis =
     (case axis of Vec3 x y z \<Rightarrow>
        let n = sqrt (x * x + y * y + z * z);
            i = x / n; j = y / n; k = z / n;
            c = cos angle; s = sin angle; omc = 1 - c
        in Mat4 (Vec4 (i * i * omc + c) (i * j * omc - k * s) (i * k * omc + j * s) 0)
                (Vec4 (i * j * omc + k * s) (j * j * omc + c) (j * k * omc - i * s) 0)
                (Vec4 (i * k * omc - j * s) (j * k * omc + i * s) (k * k * omc + c) 0)
                (Vec4 0 0 0 1))"

text \<open>A sample Body, placed at the origin with velocity \<open>(1, 0, 0)\<close> and no spin (the
  Body of the spec's scenario).\<close>

definition sample_body :: body where
  "sample_body = emplace (Vec3 1 1 1) False Mat4_identity (Vec3 1 0 0) 0 (Vec3 0 1 0)"

text \<open>Sample arguments for \<open>check_if_colliding\<close>: a Body of size \<open>2\<close> at the origin
  (reference \<open>0\<close>) with its inverse cached, every other reference a unit Body at
  \<open>(3, 0, 0)\<close>, both drawn; a collider that tests three points against the cube with
  leeway \<open>0.1\<close>; and, for the parameter that stands for the library's
  \<open>Mat4.inverse\<close>, the inverse of a matrix \<open>translation \<cdot> scale\<close>.\<close>

definition inverse_translation_scale :: "mat4 \<Rightarrow> mat4" where
  "inverse_translation_scale m =
     (case m of Mat4 (Vec4 a _ _ x) (Vec4 _ b _ y) (Vec4 _ _ c z) _ \<Rightarrow>
        Mat4 (Vec4 (1 / a) 0 0 (- x / a)) (Vec4 0 (1 / b) 0 (- y / b))
             (Vec4 0 0 (1 / c) (- z / c)) (Vec4 0 0 0 1))"

definition sample_store :: store where
  "sample_store =
     (\<lambda>r. blend_state 0
            (emplace (Vec3 1 1 1) False (Mat4_translation (Vec3 3 0 0)) (Vec3 0 0 0) 0
               (Vec3 0 1 0)))
     (0 := (blend_state 0
              (emplace (Vec3 2 2 2) False Mat4_identity (Vec3 0 0 0) 0 (Vec3 0 1 0)))
            \<lparr> inverse_m := Some (Mat4_scale (Vec3 (1 / 2) (1 / 2) (1 / 2))) \<rparr>)"

definition sample_collider :: collider where
  "sample_collider =
     \<lparr> intersect_test = intersect_cube,
       points = [Vec3 1 0 0, Vec3 (- 1) 0 0, Vec3 0 1 0],
       leeway = 0.1 \<rparr>"

section \<open>IEEE doubles\<close>

text \<open>
  The clock of the Simulation is kept in JavaScript numbers, that is IEEE 754 binary64
  values, and every \<open>+\<close>, \<open>-\<close>, \<open>*\<close> and \<open>/\<close> on them rounds its exact result to
  the nearest double, ties to the even mantissa. \<open>fl\<close> is that rounding on the reals:
  a double in the binade \<open>[2\<^sup>e, 2\<^sup>e\<^sup>+\<^sup>1)\<close> is a multiple of \<open>2\<^sup>e\<^sup>-\<^sup>5\<^sup>2\<close>, and below
  \<open>2\<^sup>-\<^sup>1\<^sup>0\<^sup>2\<^sup>2\<close> (the subnormal range) of \<open>2\<^sup>-\<^sup>1\<^sup>0\<^sup>7\<^sup>4\<close>. Overflow to an infinity
  (above about \<open>1.8 \<cdot> 10\<^sup>3\<^sup>0\<^sup>8\<close>) and NaN are outside the model.
\<close>

definition pow2 :: "int \<Rightarrow> real" where
  "pow2 e = (if 0 \<le> e then 2 ^ nat e else 1 / 2 ^ nat (- e))"

definition round_even :: "real \<Rightarrow> int" where
  "round_even x =
     (let f = \<lfloor>x\<rfloor>; r = x - of_int f
      in if r < 1 / 2 then f else if 1 / 2 < r then f + 1
         else if even f then f else f + 1)"

definition binade :: "real \<Rightarrow> int" where
  "binade x = max \<lfloor>log 2 \<bar>x\<bar>\<rfloor> (- 1022)"

definition fl :: "real \<Rightarrow> real" where
  "fl x =
     (if x = 0 then 0
      else sgn x * (of_int (round_even (\<bar>x\<bar> / pow2 (binade x - 52))) * pow2 (binade x - 52)))"

section \<open>The clock in doubles\<close>

text \<open>
  \<open>simulate\<close> once more, with the arithmetic of the code on the clock: every sum,
  difference, product and quotient of \<open>simulate\<close> is rounded by \<open>fl\<close>, the literal
  \<open>0.1\<close> is the double \<open>fl 0.1\<close>, and the constructor's \<open>dt\<close> is the double
  \<open>fl (1 / 20)\<close>. \<open>Math.min\<close>, \<open>Math.abs\<close>, \<open>Math.sign\<close> and the comparison are
  exact on doubles, and \<open>steps_taken\<close> counts exactly below \<open>2\<^sup>5\<^sup>3\<close>. The versions above
  over the reals are these with \<open>fl\<close> left out. The arguments \<open>frame_time\<close> and the
  fields of the state are meant to hold doubles.
\<close>

definition Simulation_new_d :: simulation where
  "Simulation_new_d =
     \<lparr> time_accumulator = 0, time_scale = 1, t = 0, dt = fl (1 / 20), bodies = [],
       steps_taken = 0 \<rparr>"

definition fixed_step_d ::
  "(real \<Rightarrow> vec3 \<Rightarrow> mat4) \<Rightarrow> (real \<Rightarrow> 'a simulation_scheme \<Rightarrow> string + 'a simulation_scheme)
     \<Rightarrow> real \<Rightarrow> 'a simulation_scheme \<Rightarrow> string + 'a simulation_scheme" where
  "fixed_step_d Mat4_rotation upd frame_time s =
     (case upd (dt s) s of
        Inl e \<Rightarrow> Inl e
      | Inr s1 \<Rightarrow>
          (let s2 = s1\<lparr> bodies := map (advance Mat4_rotation (dt s1)) (bodies s1) \<rparr>;
               s3 = s2\<lparr> t := fl (t s2 + fl (sgn frame_time * dt s2)) \<rparr>;
               s4 = s3\<lparr> time_accumulator :=
                         fl (time_accumulator s3 - fl (sgn frame_time * dt s3)) \<rparr>
           in Inr (s4\<lparr> steps_taken := steps_taken s4 + 1 \<rparr>)))"

partial_function (option) simulate_loop_d ::
  "(real \<Rightarrow> vec3 \<Rightarrow> mat4) \<Rightarrow> (real \<Rightarrow> 'a simulation_scheme \<Rightarrow> string + 'a simulation_scheme)
     \<Rightarrow> real \<Rightarrow> 'a simulation_scheme \<Rightarrow> (string + 'a simulation_scheme) option" where
  "simulate_loop_d Mat4_rotation upd frame_time s =
     (if \<bar>time_accumulator s\<bar> \<ge> dt s then
        (case fixed_step_d Mat4_rotation upd frame_time s of
           Inl e \<Rightarrow> Some (Inl e)
         | Inr s1 \<Rightarrow> simulate_loop_d Mat4_rotation upd frame_time s1)
      else Some (Inr s))"

definition blend_bodies_d :: "'a simulation_scheme \<Rightarrow> 'a simulation_scheme" where
  "blend_bodies_d s =
     (let alpha = fl (time_accumulator s / dt s)
      in s\<lparr> bodies := map (blend_state alpha) (bodies s) \<rparr>)"

definition simulate_d ::
  "(real \<Rightarrow> vec3 \<Rightarrow> mat4) \<Rightarrow> (real \<Rightarrow> 'a simulation_scheme \<Rightarrow> string + 'a simulation_scheme)
     \<Rightarrow> real \<Rightarrow> 'a simulation_scheme \<Rightarrow> (string + 'a simulation_scheme) option" where
  "simulate_d Mat4_rotation upd frame_time0 s =
     (let frame_time = fl (time_scale s * frame_time0);
          s1 = s\<lparr> time_accumulator := fl (time_accumulator s + min frame_time (fl 0.1)) \<rparr>
      in case simulate_loop_d Mat4_rotation upd frame_time s1 of
           None \<Rightarrow> None
         | Some (Inl e) \<Rightarrow> Some (Inl e)
         | Some (Inr s2) \<Rightarrow> Some (Inr (blend_bodies_d s2)))"

text \<open>A finite run of the host's frame loop: one \<open>simulate\<close> call per frame time,
  stopping at the first call that throws or does not return.\<close>

fun simulate_all_d ::
  "(real \<Rightarrow> vec3 \<Rightarrow> mat4) \<Rightarrow> (real \<Rightarrow> 'a simulation_scheme \<Rightarrow> string + 'a simulation_scheme)
     \<Rightarrow> real list \<Rightarrow> 'a simulation_scheme \<Rightarrow> (string + 'a simulation_scheme) option" where
  "simulate_all_d Mat4_rotation upd [] s = Some (Inr s)"
| "simulate_all_d Mat4_rotation upd (frame_time # rest) s =
     (case simulate_d Mat4_rotation upd frame_time s of
        None \<Rightarrow> None
      | Some (Inl e) \<Rightarrow> Some (Inl e)
      | Some (Inr s1) \<Rightarrow> simulate_all_d Mat4_rotation upd rest s1)"

text \<open>
  What a run of the loop in doubles, forwards in time, leaves behind relative to the state
  \<open>s\<close> at loop entry: the step size and time scale are kept, the accumulator is a double
  in \<open>[0, dt)\<close>, and what the steps took from it is \<open>dt\<close> each, up to the rounding of one
  subtraction per step, which is at most \<open>2\<^sup>-\<^sup>5\<^sup>6\<close> for numbers below \<open>1 / 4\<close>.
\<close>

definition clock_after_d :: "'a simulation_scheme \<Rightarrow> 'a simulation_scheme \<Rightarrow> bool" where
  "clock_after_d s s' \<longleftrightarrow>
     dt s' = dt s \<and> time_scale s' = time_scale s \<and>
     0 \<le> time_accumulator s' \<and> time_accumulator s' < dt s \<and>
     fl (time_accumulator s') = time_accumulator s' \<and>
     steps_taken s \<le> steps_taken s' \<and>
     \<bar>time_accumulator s' + real (steps_taken s' - steps_taken s) * dt s - time_accumulator s\<bar>
       \<le> real (steps_taken s' - steps_taken s) / 2 ^ 56"

section \<open>Point-in-volume tests\<close>

text \<open>
  C7: for every point \<open>p = (x, y, z)\<close> and every margin, \<open>intersect_cube\<close> is true
  exactly when each of \<open>x\<close>, \<open>y\<close>, \<open>z\<close> lies in the closed interval
  \<open>[-1 - margin, 1 + margin]\<close>; with margin \<open>0\<close> the corner \<open>(1, 1, 1)\<close> is
  inside (the boundary is inclusive) and \<open>(1.01, 0, 0)\<close> is outside.
\<close>

theorem intersect_cube_iff:
  "(intersect_cube (Vec3 x y z) margin \<longleftrightarrow>
      x \<in> {- 1 - margin .. 1 + margin} \<and>
      y \<in> {- 1 - margin .. 1 + margin} \<and>
      z \<in> {- 1 - margin .. 1 + margin})
   \<and> intersect_cube (Vec3 1 1 1) 0
   \<and> \<not> intersect_cube (Vec3 1.01 0 0) 0"
  by (simp add: intersect_cube_def)

section \<open>The stepping loop\<close>

lemma simulate_loop_exit:
  "\<not> dt s \<le> \<bar>time_accumulator s\<bar> \<Longrightarrow> simulate_loop R upd ft s = Some (Inr s)"
  by (subst simulate_loop.simps) simp

lemma simulate_loop_iter:
  "dt s \<le> \<bar>time_accumulator s\<bar> \<Longrightarrow>
     simulate_loop R upd ft s =
       (case fixed_step R upd ft s of
          Inl e \<Rightarrow> Some (Inl e)
        | Inr s1 \<Rightarrow> simulate_loop R upd ft s1)"
  by (subst simulate_loop.simps) simp

lemma fixed_step_clock:
  assumes "hook_keeps_clock upd" and "fixed_step R upd ft s = Inr s1"
  shows "time_accumulator s1 = time_accumulator s - sgn ft * dt s"
    and "dt s1 = dt s" and "time_scale s1 = time_scale s"
    and "t s1 = t s + sgn ft * dt s" and "steps_taken s1 = Suc (steps_taken s)"
  using assms
  by (auto simp: fixed_step_def hook_keeps_clock_def Let_def split: sum.splits)

text \<open>With a scaled frame time that is not zero and an accumulator that is less than
  a step away on the far side of zero, the loop returns (or the hook throws): the
  number of whole steps pending, \<open>\<lfloor>sg \<cdot> time_accumulator / dt\<rfloor>\<close>, goes down by one
  in every iteration.\<close>

lemma simulate_loop_returns:
  assumes hk: "hook_keeps_clock upd" and ft: "ft \<noteq> 0"
  shows "- dt s < sgn ft * time_accumulator s \<Longrightarrow> 0 < dt s \<Longrightarrow>
     \<exists>r. simulate_loop R upd ft s = Some r \<and> (\<forall>s'. r = Inr s' \<longrightarrow> clock_after (sgn ft) s s')"
proof (induction "nat \<lfloor>sgn ft * time_accumulator s / dt s\<rfloor>" arbitrary: s rule: less_induct)
  case less
  from ft have sg: "sgn ft = 1 \<or> sgn ft = - 1"
    by (simp add: sgn_if)
  then have ab: "\<bar>time_accumulator s\<bar> = \<bar>sgn ft * time_accumulator s\<bar>"
    for s :: "'a simulation_scheme"
    by auto
  show ?case
  proof (cases "dt s \<le> \<bar>time_accumulator s\<bar>")
    case False
    then show ?thesis
      using sg by (auto simp: simulate_loop_exit clock_after_def)
  next
    case True
    with less.prems have big: "dt s \<le> sgn ft * time_accumulator s"
      unfolding ab [of s] by linarith
    show ?thesis
    proof (cases "fixed_step R upd ft s")
      case (Inl e)
      with True show ?thesis by (simp add: simulate_loop_iter)
    next
      case (Inr s1)
      note fs = fixed_step_clock [OF hk Inr]
      have acc1: "sgn ft * time_accumulator s1 = sgn ft * time_accumulator s - dt s"
        using fs(1) sg by (auto simp: algebra_simps)
      have fl: "\<lfloor>sgn ft * time_accumulator s1 / dt s1\<rfloor>
                  = \<lfloor>sgn ft * time_accumulator s / dt s\<rfloor> - 1"
        using less.prems(2) by (simp add: acc1 fs(2) diff_divide_distrib)
      have pos: "1 \<le> \<lfloor>sgn ft * time_accumulator s / dt s\<rfloor>"
        using big less.prems(2) by (simp add: le_floor_iff)
      have m: "nat \<lfloor>sgn ft * time_accumulator s1 / dt s1\<rfloor>
                 < nat \<lfloor>sgn ft * time_accumulator s / dt s\<rfloor>"
        using fl pos by linarith
      have p1: "- dt s1 < sgn ft * time_accumulator s1" "0 < dt s1"
        using big less.prems acc1 fs(2) by simp_all
      from less.hyps [OF m p1] obtain r where
        r: "simulate_loop R upd ft s1 = Some r" and
        rr: "\<forall>s'. r = Inr s' \<longrightarrow> clock_after (sgn ft) s1 s'"
        by blast
      have eq: "simulate_loop R upd ft s = Some r"
        using True Inr r by (simp add: simulate_loop_iter)
      have "clock_after (sgn ft) s s'" if "r = Inr s'" for s'
      proof -
        from rr that have h: "clock_after (sgn ft) s1 s'" by blast
        have z: "0 \<le> sgn ft * time_accumulator s'"
          using h acc1 big fs(2) unfolding clock_after_def by auto
        show ?thesis
          using h z fs acc1 ft unfolding clock_after_def
          by (simp add: algebra_simps sgn_eq_0_iff)
      qed
      with eq show ?thesis by blast
    qed
  qed
qed

text \<open>The state in which \<open>simulate\<close> enters its loop.\<close>

lemma blend_bodies_clock:
  "time_accumulator (blend_bodies s) = time_accumulator s"
  "dt (blend_bodies s) = dt s" "time_scale (blend_bodies s) = time_scale s"
  "t (blend_bodies s) = t s" "steps_taken (blend_bodies s) = steps_taken s"
  by (simp_all add: blend_bodies_def Let_def)

text \<open>From a state with less than a step pending, \<open>simulate\<close> returns or throws,
  whatever the frame time, and a normal return is the blend of a state \<open>s2\<close> that the
  loop left as \<open>clock_after\<close> describes.\<close>

lemma simulate_returns:
  assumes hk: "hook_keeps_clock upd" and inv: "\<bar>time_accumulator s\<bar> < dt s"
  shows "\<exists>r. simulate R upd frame_time s = Some r \<and>
     (\<forall>s'. r = Inr s' \<longrightarrow>
        (\<exists>s2. s' = blend_bodies s2 \<and>
           clock_after (sgn (time_scale s * frame_time))
             (s\<lparr> time_accumulator :=
                   time_accumulator s + min (time_scale s * frame_time) 0.1 \<rparr>) s2))"
proof -
  define ft where "ft = time_scale s * frame_time"
  define s1 where "s1 = s\<lparr> time_accumulator := time_accumulator s + min ft 0.1 \<rparr>"
  have sim: "simulate R upd frame_time s =
      (case simulate_loop R upd ft s1 of
         None \<Rightarrow> None
       | Some (Inl e) \<Rightarrow> Some (Inl e)
       | Some (Inr s2) \<Rightarrow> Some (Inr (blend_bodies s2)))"
    by (simp add: simulate_def ft_def s1_def Let_def)
  have "\<exists>r. simulate_loop R upd ft s1 = Some r \<and> (\<forall>s2. r = Inr s2 \<longrightarrow> clock_after (sgn ft) s1 s2)"
  proof (cases "ft = 0")
    case True
    then have "\<not> dt s1 \<le> \<bar>time_accumulator s1\<bar>"
      using inv by (simp add: s1_def)
    then have "simulate_loop R upd ft s1 = Some (Inr s1)"
      by (rule simulate_loop_exit)
    moreover have "clock_after (sgn ft) s1 s1"
      using inv True by (simp add: clock_after_def s1_def)
    ultimately show ?thesis by simp
  next
    case False
    have "- dt s1 < sgn ft * time_accumulator s1"
    proof (cases "0 < ft")
      case True
      then show ?thesis using inv by (auto simp: s1_def min_def)
    next
      case neg: False
      with False have "ft < 0" by simp
      then show ?thesis using inv by (auto simp: s1_def min_def)
    qed
    moreover have "0 < dt s1" using inv by (simp add: s1_def)
    ultimately show ?thesis
      using simulate_loop_returns [OF hk False] by blast
  qed
  then obtain r where r: "simulate_loop R upd ft s1 = Some r"
    and rr: "\<forall>s2. r = Inr s2 \<longrightarrow> clock_after (sgn ft) s1 s2"
    by blast
  show ?thesis
  proof (cases r)
    case (Inl e)
    with r sim show ?thesis by simp
  next
    case (Inr s2)
    with r sim rr show ?thesis
      unfolding ft_def [symmetric] s1_def [symmetric] by auto
  qed
qed

text \<open>Whatever the hook does, the loop is left only when less than a step is pending,
  and a throw of the loop is a throw of the hook.\<close>

lemma simulate_loop_result:
  assumes ret: "simulate_loop R upd ft s = Some y"
  shows "(\<forall>s'. y = Inr s' \<longrightarrow> \<not> dt s' \<le> \<bar>time_accumulator s'\<bar>) \<and>
         (\<forall>e. y = Inl e \<longrightarrow> (\<exists>d s0. upd d s0 = Inl e))"
proof (rule simulate_loop.raw_induct
    [where P = "\<lambda>R upd ft s y.
        (\<forall>s'. y = Inr s' \<longrightarrow> \<not> dt s' \<le> \<bar>time_accumulator s'\<bar>) \<and>
        (\<forall>e. y = Inl e \<longrightarrow> (\<exists>d s0. upd d s0 = Inl e))", OF _ ret])
  fix loop :: "(real \<Rightarrow> vec3 \<Rightarrow> mat4) \<Rightarrow> (real \<Rightarrow> 'a simulation_scheme \<Rightarrow> string + 'a simulation_scheme)
     \<Rightarrow> real \<Rightarrow> 'a simulation_scheme \<Rightarrow> (string + 'a simulation_scheme) option"
    and R upd ft s y
  assume IH: "\<And>R upd ft s y. loop R upd ft s = Some y \<Longrightarrow>
        (\<forall>s'. y = Inr s' \<longrightarrow> \<not> dt s' \<le> \<bar>time_accumulator s'\<bar>) \<and>
        (\<forall>e. y = Inl e \<longrightarrow> (\<exists>d s0. upd d s0 = Inl e))"
    and eqn: "(if dt s \<le> \<bar>time_accumulator s\<bar>
               then case fixed_step R upd ft s of
                      Inl e \<Rightarrow> Some (Inl e)
                    | Inr s1 \<Rightarrow> loop R upd ft s1
               else Some (Inr s)) = Some y"
  show "(\<forall>s'. y = Inr s' \<longrightarrow> \<not> dt s' \<le> \<bar>time_accumulator s'\<bar>) \<and>
        (\<forall>e. y = Inl e \<longrightarrow> (\<exists>d s0. upd d s0 = Inl e))"
  proof (cases "dt s \<le> \<bar>time_accumulator s\<bar>")
    case False
    with eqn show ?thesis by auto
  next
    case True
    show ?thesis
    proof (cases "fixed_step R upd ft s")
      case (Inl e)
      then have "upd (dt s) s = Inl e"
        by (simp add: fixed_step_def Let_def split: sum.splits)
      with eqn True Inl show ?thesis by auto
    next
      case (Inr s1)
      with eqn True have "loop R upd ft s1 = Some y" by simp
      then show ?thesis by (rule IH)
    qed
  qed
qed

lemma simulate_result:
  assumes "simulate R upd frame_time s = Some y"
  shows "(\<forall>s'. y = Inr s' \<longrightarrow> \<bar>time_accumulator s'\<bar> < dt s') \<and>
         (\<forall>e. y = Inl e \<longrightarrow> (\<exists>d s0. upd d s0 = Inl e))"
proof -
  define ft where "ft = time_scale s * frame_time"
  define s1 where "s1 = s\<lparr> time_accumulator := time_accumulator s + min ft 0.1 \<rparr>"
  from assms obtain y1 where l: "simulate_loop R upd ft s1 = Some y1"
    and y: "y = (case y1 of Inl e \<Rightarrow> Inl e | Inr s2 \<Rightarrow> Inr (blend_bodies s2))"
    by (auto simp: simulate_def Let_def ft_def s1_def split: option.splits sum.splits)
  from simulate_loop_result [OF l] y show ?thesis
    by (auto simp: blend_bodies_clock split: sum.splits)
qed

lemma simulate_keeps_invariant:
  assumes "hook_keeps_clock upd" and "\<bar>time_accumulator s\<bar> < dt s"
    and "simulate R upd frame_time s = Some (Inr s')"
  shows "\<bar>time_accumulator s'\<bar> < dt s'"
  using simulate_returns [OF assms(1,2), of R frame_time] assms(3)
  by (auto simp: clock_after_def blend_bodies_clock)

lemma reachable_invariant:
  assumes hk: "hook_keeps_clock upd"
  shows "reachable R upd s \<Longrightarrow> \<bar>time_accumulator s\<bar> < dt s"
proof (induction rule: reachable.induct)
  case (constructed s)
  then show ?case by simp
next
  case (other_fields s s')
  then show ?case by simp
next
  case (simulated s frame_time s')
  then show ?case using simulate_keeps_invariant [OF hk] by blast
qed

section \<open>The accumulator invariant\<close>

text \<open>
  C1: whenever \<open>simulate\<close> returns normally, from any state and for any frame time
  and hook, \<open>\<bar>time_accumulator\<bar> < dt\<close> holds afterwards; and from every reachable
  state, with a hook that keeps the clock, \<open>simulate\<close> does return (normally, or with
  the hook's throw), whatever the frame time.
\<close>

theorem simulate_accumulator_below_dt:
  "(\<forall>s'. simulate R upd frame_time s = Some (Inr s') \<longrightarrow>
          \<bar>time_accumulator s'\<bar> < dt s') \<and>
   (hook_keeps_clock upd \<and> reachable R upd s \<longrightarrow>
      (\<exists>r. simulate R upd frame_time s = Some r))"
proof (intro conjI allI impI)
  fix s' assume "simulate R upd frame_time s = Some (Inr s')"
  from simulate_result [OF this] show "\<bar>time_accumulator s'\<bar> < dt s'" by simp
next
  assume a: "hook_keeps_clock upd \<and> reachable R upd s"
  then have inv: "\<bar>time_accumulator s\<bar> < dt s"
    using reachable_invariant by blast
  from a simulate_returns [OF _ inv, of upd R frame_time]
  show "\<exists>r. simulate R upd frame_time s = Some r" by blast
qed

lemma keep_state_keeps_clock: "hook_keeps_clock keep_state"
  by (simp add: hook_keeps_clock_def keep_state_def)

lemma simulate_new_run:
  "simulate rotate_by keep_state 0.12 Simulation_new
     = Some (Inr (Simulation_new\<lparr> t := 0.1, steps_taken := 2 \<rparr>))"
  by (simp add: simulate_def Simulation_new_def simulate_loop_iter simulate_loop_exit
      fixed_step_def keep_state_def blend_bodies_def Let_def)

theorem simulate_accumulator_below_dt_witness:
  "hook_keeps_clock (keep_state :: real \<Rightarrow> simulation \<Rightarrow> string + simulation) \<and>
   reachable rotate_by keep_state Simulation_new \<and>
   simulate rotate_by keep_state 0.12 Simulation_new
     = Some (Inr (Simulation_new\<lparr> t := 0.1, steps_taken := 2 \<rparr>)) \<and>
   \<bar>time_accumulator (Simulation_new\<lparr> t := 0.1, steps_taken := 2 \<rparr>)\<bar>
     < dt (Simulation_new\<lparr> t := 0.1, steps_taken := 2 \<rparr>)"
proof -
  have r: "reachable rotate_by keep_state Simulation_new"
    by (rule reachable.constructed) (simp_all add: Simulation_new_def)
  from simulate_accumulator_below_dt [of rotate_by keep_state "0.12" Simulation_new]
  show ?thesis
    using r keep_state_keeps_clock simulate_new_run by simp
qed

section \<open>A frame of no time\<close>

lemma blend_state_frame:
  "center (blend_state alpha b) = center b"
  "rotation (blend_state alpha b) = rotation b"
  "previous (blend_state alpha b) = previous b"
  by (simp_all add: blend_state_def)

text \<open>With \<open>frame_time = 0\<close> an iteration changes neither the accumulator nor the step
  size, so a loop that is entered is never left unless the hook throws.\<close>

lemma simulate_loop_zero_stuck:
  assumes ret: "simulate_loop R upd ft s = Some y"
  shows "hook_keeps_clock upd \<longrightarrow> ft = 0 \<longrightarrow> dt s \<le> \<bar>time_accumulator s\<bar>
           \<longrightarrow> (\<exists>e. y = Inl e)"
proof (rule simulate_loop.raw_induct
    [where P = "\<lambda>R upd ft s y. hook_keeps_clock upd \<longrightarrow> ft = 0 \<longrightarrow>
                  dt s \<le> \<bar>time_accumulator s\<bar> \<longrightarrow> (\<exists>e. y = Inl e)", OF _ ret])
  fix loop :: "(real \<Rightarrow> vec3 \<Rightarrow> mat4) \<Rightarrow> (real \<Rightarrow> 'a simulation_scheme \<Rightarrow> string + 'a simulation_scheme)
     \<Rightarrow> real \<Rightarrow> 'a simulation_scheme \<Rightarrow> (string + 'a simulation_scheme) option"
    and R upd ft s y
  assume IH: "\<And>R upd ft s y. loop R upd ft s = Some y \<Longrightarrow>
        hook_keeps_clock upd \<longrightarrow> ft = 0 \<longrightarrow> dt s \<le> \<bar>time_accumulator s\<bar> \<longrightarrow> (\<exists>e. y = Inl e)"
    and eqn: "(if dt s \<le> \<bar>time_accumulator s\<bar>
               then case fixed_step R upd ft s of
                      Inl e \<Rightarrow> Some (Inl e)
                    | Inr s1 \<Rightarrow> loop R upd ft s1
               else Some (Inr s)) = Some y"
  show "hook_keeps_clock upd \<longrightarrow> ft = 0 \<longrightarrow> dt s \<le> \<bar>time_accumulator s\<bar>
          \<longrightarrow> (\<exists>e. y = Inl e)"
  proof (intro impI)
    assume hk: "hook_keeps_clock upd" and z: "ft = 0"
      and big: "dt s \<le> \<bar>time_accumulator s\<bar>"
    show "\<exists>e. y = Inl e"
    proof (cases "fixed_step R upd ft s")
      case (Inl e)
      with eqn big show ?thesis by auto
    next
      case (Inr s1)
      note fs = fixed_step_clock [OF hk Inr]
      have "dt s1 \<le> \<bar>time_accumulator s1\<bar>"
        using big z fs(1,2) by simp
      moreover have "loop R upd ft s1 = Some y"
        using eqn big Inr by simp
      ultimately show ?thesis
        using IH hk z by blast
    qed
  qed
qed

text \<open>
  C10: from a state with \<open>\<bar>time_accumulator\<bar> < dt\<close>, \<open>simulate(0)\<close> returns the
  same Simulation with every Body blended at \<open>alpha = time_accumulator / dt\<close>: no
  fixed step is taken, so \<open>t\<close>, \<open>steps_taken\<close>, \<open>time_accumulator\<close> and each
  Body's \<open>center\<close>, \<open>rotation\<close> and \<open>previous\<close> are as before, and each
  \<open>drawn_location\<close> is the one \<open>blend_state\<close> computes. Without the precondition
  the call does not return normally, for a hook that keeps the clock: it ends with the
  hook's throw, and runs forever when the hook never throws.
\<close>

theorem simulate_zero_frame_time:
  "(\<bar>time_accumulator s\<bar> < dt s \<longrightarrow>
      (\<exists>s'. simulate R upd 0 s = Some (Inr s') \<and>
         s' = s\<lparr> bodies := map (blend_state (time_accumulator s / dt s)) (bodies s) \<rparr> \<and>
         t s' = t s \<and> steps_taken s' = steps_taken s \<and>
         time_accumulator s' = time_accumulator s \<and>
         map center (bodies s') = map center (bodies s) \<and>
         map rotation (bodies s') = map rotation (bodies s) \<and>
         map previous (bodies s') = map previous (bodies s) \<and>
         map drawn_location (bodies s') =
           map (\<lambda>b. drawn_location (blend_state (time_accumulator s / dt s) b)) (bodies s)))
   \<and> (dt s \<le> \<bar>time_accumulator s\<bar> \<and> hook_keeps_clock upd \<longrightarrow>
         (\<forall>s'. simulate R upd 0 s \<noteq> Some (Inr s')))
   \<and> (dt s \<le> \<bar>time_accumulator s\<bar> \<and> hook_keeps_clock upd \<and> (\<forall>d s0 e. upd d s0 \<noteq> Inl e) \<longrightarrow>
         simulate R upd 0 s = None)"
proof (intro conjI impI)
  assume inv: "\<bar>time_accumulator s\<bar> < dt s"
  then have "simulate R upd 0 s
      = Some (Inr (s\<lparr> bodies := map (blend_state (time_accumulator s / dt s)) (bodies s) \<rparr>))"
    by (simp add: simulate_def simulate_loop_exit blend_bodies_def Let_def)
  then show "\<exists>s'. simulate R upd 0 s = Some (Inr s') \<and>
         s' = s\<lparr> bodies := map (blend_state (time_accumulator s / dt s)) (bodies s) \<rparr> \<and>
         t s' = t s \<and> steps_taken s' = steps_taken s \<and>
         time_accumulator s' = time_accumulator s \<and>
         map center (bodies s') = map center (bodies s) \<and>
         map rotation (bodies s') = map rotation (bodies s) \<and>
         map previous (bodies s') = map previous (bodies s) \<and>
         map drawn_location (bodies s') =
           map (\<lambda>b. drawn_location (blend_state (time_accumulator s / dt s) b)) (bodies s)"
    by (simp add: blend_state_frame comp_def)
next
  assume a: "dt s \<le> \<bar>time_accumulator s\<bar> \<and> hook_keeps_clock upd"
  show "\<forall>s'. simulate R upd 0 s \<noteq> Some (Inr s')"
  proof (intro allI notI)
    fix s' assume r: "simulate R upd 0 s = Some (Inr s')"
    then obtain s2 where "simulate_loop R upd 0 s = Some (Inr s2)"
      by (auto simp: simulate_def Let_def split: option.splits sum.splits)
    from simulate_loop_zero_stuck [OF this] a show False by auto
  qed
next
  assume a: "dt s \<le> \<bar>time_accumulator s\<bar> \<and> hook_keeps_clock upd \<and>
             (\<forall>d s0 e. upd d s0 \<noteq> Inl e)"
  show "simulate R upd 0 s = None"
  proof (rule ccontr)
    assume "simulate R upd 0 s \<noteq> None"
    then obtain y where y: "simulate R upd 0 s = Some y" by auto
    then obtain y1 where l: "simulate_loop R upd 0 s = Some y1"
      by (auto simp: simulate_def Let_def split: option.splits)
    from simulate_loop_zero_stuck [OF l] a obtain e where "y1 = Inl e" by auto
    with simulate_loop_result [OF l] a show False by auto
  qed
qed

lemma sample_body_eval:
  "sample_body =
     \<lparr> center = Vec3 0 0 0, rotation = Mat4_identity,
       size_v = Vec3 1 1 1, user_projectile = False, hit = False,
       previous = \<lparr> center = Vec3 0 0 0, rotation = Mat4_identity \<rparr>,
       drawn_location = Mat4_identity, temp_matrix = Mat4_identity,
       linear_velocity = Vec3 1 0 0, angular_velocity = 0, spin_axis = Vec3 0 1 0,
       inverse_m = None \<rparr>"
  by (simp add: sample_body_def emplace_def Mat4_identity_def Let_def)

lemma advance_sample_body:
  "advance rotate_by d sample_body =
     sample_body\<lparr> center := Vec3 d 0 0 \<rparr>"
  by (simp add: sample_body_eval advance_def rotate_by_def Mat4_identity_def Let_def)

lemma advance_twice_sample_body:
  "advance rotate_by d (advance rotate_by d sample_body) =
     sample_body\<lparr> center := Vec3 (d + d) 0 0,
                  previous := \<lparr> center = Vec3 d 0 0, rotation = Mat4_identity \<rparr> \<rparr>"
  by (simp add: sample_body_eval advance_def rotate_by_def Mat4_identity_def Let_def)

theorem simulate_zero_frame_time_witness:
  "\<bar>time_accumulator (Simulation_new\<lparr> time_accumulator := 0.02, bodies := [sample_body] \<rparr>)\<bar>
     < dt (Simulation_new\<lparr> time_accumulator := 0.02, bodies := [sample_body] \<rparr>) \<and>
   simulate rotate_by keep_state 0
       (Simulation_new\<lparr> time_accumulator := 0.02, bodies := [sample_body] \<rparr>)
     = Some (Inr (Simulation_new\<lparr> time_accumulator := 0.02,
                                   bodies := [blend_state 0.4 sample_body] \<rparr>)) \<and>
   dt (Simulation_new\<lparr> time_accumulator := 0.05 \<rparr>)
     \<le> \<bar>time_accumulator (Simulation_new\<lparr> time_accumulator := 0.05 \<rparr>)\<bar> \<and>
   hook_keeps_clock (keep_state :: real \<Rightarrow> simulation \<Rightarrow> string + simulation) \<and>
   simulate rotate_by keep_state 0 (Simulation_new\<lparr> time_accumulator := 0.05 \<rparr>) = None"
proof -
  have a: "\<bar>time_accumulator (Simulation_new\<lparr> time_accumulator := 0.02, bodies := [sample_body] \<rparr>)\<bar>
     < dt (Simulation_new\<lparr> time_accumulator := 0.02, bodies := [sample_body] \<rparr>)"
    and b: "dt (Simulation_new\<lparr> time_accumulator := 0.05 \<rparr>)
     \<le> \<bar>time_accumulator (Simulation_new\<lparr> time_accumulator := 0.05 \<rparr>)\<bar>"
    by (simp_all add: Simulation_new_def)
  have c: "\<forall>d (s0 :: simulation) e. keep_state d s0 \<noteq> Inl e"
    by (simp add: keep_state_def)
  from a simulate_zero_frame_time
      [of "Simulation_new\<lparr> time_accumulator := 0.02, bodies := [sample_body] \<rparr>"
          rotate_by keep_state]
  have "simulate rotate_by keep_state 0
       (Simulation_new\<lparr> time_accumulator := 0.02, bodies := [sample_body] \<rparr>)
     = Some (Inr (Simulation_new\<lparr> time_accumulator := 0.02,
                                   bodies := [blend_state 0.4 sample_body] \<rparr>))"
    by (simp add: Simulation_new_def)
  moreover from b c keep_state_keeps_clock simulate_zero_frame_time
      [of "Simulation_new\<lparr> time_accumulator := 0.05 \<rparr>" rotate_by keep_state]
  have "simulate rotate_by keep_state 0 (Simulation_new\<lparr> time_accumulator := 0.05 \<rparr>) = None"
    by blast
  ultimately show ?thesis
    using a b keep_state_keeps_clock by blast
qed

section \<open>The scenario \<open>step(0.12)\<close>\<close>

text \<open>A frame time of at least \<open>0.1\<close> at \<open>time_scale = 1\<close> is clamped: from an empty
  accumulator with \<open>dt = 1 / 20\<close> the loop runs twice.\<close>

lemma simulate_two_steps:
  assumes hk: "hook_keeps_clock upd" and acc: "time_accumulator s = 0"
    and d: "dt s = 1 / 20" and ts: "time_scale s = 1" and ft: "1 / 10 \<le> ft"
  shows "simulate R upd ft s =
           (case fixed_step R upd ft (s\<lparr> time_accumulator := 0.1 \<rparr>) of
              Inl e \<Rightarrow> Some (Inl e)
            | Inr s1 \<Rightarrow>
                (case fixed_step R upd ft s1 of
                   Inl e \<Rightarrow> Some (Inl e)
                 | Inr s2 \<Rightarrow> Some (Inr (s2\<lparr> bodies := map (blend_state 0) (bodies s2) \<rparr>))))"
    and "fixed_step R upd ft (s\<lparr> time_accumulator := 0.1 \<rparr>) = Inr s1 \<Longrightarrow>
         fixed_step R upd ft s1 = Inr s2 \<Longrightarrow>
         time_accumulator s2 = 0 \<and> steps_taken s2 = steps_taken s + 2"
proof -
  define s0 where "s0 = s\<lparr> time_accumulator := 0.1 \<rparr>"
  have sg: "sgn ft = 1" using ft by simp
  have sim: "simulate R upd ft s =
      (case simulate_loop R upd ft s0 of
         None \<Rightarrow> None
       | Some (Inl e) \<Rightarrow> Some (Inl e)
       | Some (Inr s2) \<Rightarrow> Some (Inr (blend_bodies s2)))"
  proof -
    have "min ft 0.1 = 0.1" using ft by simp
    then show ?thesis
      using acc ts by (simp add: simulate_def s0_def Let_def)
  qed
  have e0: "dt s0 \<le> \<bar>time_accumulator s0\<bar>"
    using d by (simp add: s0_def)
  have two: "time_accumulator s2 = 0 \<and> steps_taken s2 = steps_taken s + 2 \<and>
             dt s1 \<le> \<bar>time_accumulator s1\<bar> \<and> \<not> dt s2 \<le> \<bar>time_accumulator s2\<bar> \<and>
             blend_bodies s2 = s2\<lparr> bodies := map (blend_state 0) (bodies s2) \<rparr>"
    if f1: "fixed_step R upd ft s0 = Inr s1" and f2: "fixed_step R upd ft s1 = Inr s2"
    for s1 s2
  proof -
    note a = fixed_step_clock [OF hk f1]
    note b = fixed_step_clock [OF hk f2]
    have a1: "time_accumulator s1 = 1 / 20" "dt s1 = 1 / 20"
      using a(1,2) d sg by (simp_all add: s0_def)
    have b1: "time_accumulator s2 = 0" "dt s2 = 1 / 20"
      using b(1,2) a1 sg by simp_all
    have "steps_taken s2 = steps_taken s + 2"
      using a(5) b(5) by (simp add: s0_def)
    with a1 b1 show ?thesis
      by (simp add: blend_bodies_def Let_def)
  qed
  show "fixed_step R upd ft (s\<lparr> time_accumulator := 0.1 \<rparr>) = Inr s1 \<Longrightarrow>
         fixed_step R upd ft s1 = Inr s2 \<Longrightarrow>
         time_accumulator s2 = 0 \<and> steps_taken s2 = steps_taken s + 2"
    using two [of s1 s2] unfolding s0_def by blast
  show "simulate R upd ft s =
           (case fixed_step R upd ft (s\<lparr> time_accumulator := 0.1 \<rparr>) of
              Inl e \<Rightarrow> Some (Inl e)
            | Inr s1 \<Rightarrow>
                (case fixed_step R upd ft s1 of
                   Inl e \<Rightarrow> Some (Inl e)
                 | Inr s2 \<Rightarrow> Some (Inr (s2\<lparr> bodies := map (blend_state 0) (bodies s2) \<rparr>))))"
    unfolding s0_def [symmetric]
  proof (cases "fixed_step R upd ft s0")
    case (Inl e)
    have "simulate_loop R upd ft s0 = Some (Inl e)"
      using e0 Inl by (simp add: simulate_loop_iter)
    then show "simulate R upd ft s =
           (case fixed_step R upd ft s0 of
              Inl e \<Rightarrow> Some (Inl e)
            | Inr s1 \<Rightarrow>
                (case fixed_step R upd ft s1 of
                   Inl e \<Rightarrow> Some (Inl e)
                 | Inr s2 \<Rightarrow> Some (Inr (s2\<lparr> bodies := map (blend_state 0) (bodies s2) \<rparr>))))"
      by (simp add: sim Inl)
  next
    case f1: (Inr s1)
    have e1: "dt s1 \<le> \<bar>time_accumulator s1\<bar>"
      using fixed_step_clock(1,2) [OF hk f1] d sg by (simp add: s0_def)
    have l1: "simulate_loop R upd ft s0 = simulate_loop R upd ft s1"
      using e0 f1 by (simp add: simulate_loop_iter)
    show "simulate R upd ft s =
           (case fixed_step R upd ft s0 of
              Inl e \<Rightarrow> Some (Inl e)
            | Inr s1 \<Rightarrow>
                (case fixed_step R upd ft s1 of
                   Inl e \<Rightarrow> Some (Inl e)
                 | Inr s2 \<Rightarrow> Some (Inr (s2\<lparr> bodies := map (blend_state 0) (bodies s2) \<rparr>))))"
    proof (cases "fixed_step R upd ft s1")
      case (Inl e)
      have "simulate_loop R upd ft s1 = Some (Inl e)"
        using e1 Inl by (simp add: simulate_loop_iter)
      then show ?thesis by (simp add: sim l1 f1 Inl)
    next
      case f2: (Inr s2)
      from two [OF f1 f2] have e2: "\<not> dt s2 \<le> \<bar>time_accumulator s2\<bar>"
        and bl: "blend_bodies s2 = s2\<lparr> bodies := map (blend_state 0) (bodies s2) \<rparr>"
        by blast+
      have "simulate_loop R upd ft s1 = simulate_loop R upd ft s2"
        using e1 f2 by (simp add: simulate_loop_iter)
      also have "\<dots> = Some (Inr s2)"
        using e2 by (rule simulate_loop_exit)
      finally show ?thesis by (simp add: sim l1 f1 f2 bl)
    qed
  qed
qed

text \<open>
  C2, as amended: with \<open>dt = 1 / 20\<close>, \<open>time_scale = 1\<close> and
  \<open>time_accumulator = 0\<close>, \<open>simulate(0.12)\<close> raises the accumulator to the clamp
  \<open>min(0.12, 0.1) = 0.1\<close>, runs exactly two fixed steps (unless the hook throws in
  one of them) and blends every Body with \<open>alpha = 0\<close>; for a hook that keeps the
  clock nothing is left in the accumulator.
\<close>

theorem simulate_scenario_clamped:
  assumes "hook_keeps_clock upd" and "time_accumulator s = 0" and "dt s = 1 / 20"
    and "time_scale s = 1"
  shows "simulate R upd 0.12 s =
           (case fixed_step R upd 0.12 (s\<lparr> time_accumulator := 0.1 \<rparr>) of
              Inl e \<Rightarrow> Some (Inl e)
            | Inr s1 \<Rightarrow>
                (case fixed_step R upd 0.12 s1 of
                   Inl e \<Rightarrow> Some (Inl e)
                 | Inr s2 \<Rightarrow> Some (Inr (s2\<lparr> bodies := map (blend_state 0) (bodies s2) \<rparr>))))
         \<and> (\<forall>s1 s2. fixed_step R upd 0.12 (s\<lparr> time_accumulator := 0.1 \<rparr>) = Inr s1 \<and>
                     fixed_step R upd 0.12 s1 = Inr s2 \<longrightarrow>
                     time_accumulator s2 = 0 \<and> steps_taken s2 = steps_taken s + 2)"
proof -
  have ft: "1 / 10 \<le> (0.12 :: real)" by simp
  note l = simulate_two_steps [OF assms ft]
  show ?thesis
    using l(1) [of R] l(2) [of R] by blast
qed

lemma simulate_sample_run:
  "simulate rotate_by keep_state 0.12 (Simulation_new\<lparr> bodies := [sample_body] \<rparr>)
     = Some (Inr (Simulation_new
          \<lparr> t := 0.1,
            bodies := [blend_state 0 (advance rotate_by (1 / 20)
                                       (advance rotate_by (1 / 20) sample_body))],
            steps_taken := 2 \<rparr>))"
  by (simp add: simulate_def Simulation_new_def simulate_loop_iter simulate_loop_exit
      fixed_step_def keep_state_def blend_bodies_def Let_def)

lemma blend_sample_differs:
  "blend_state 0 (advance rotate_by (1 / 20) (advance rotate_by (1 / 20) sample_body))
     \<noteq> blend_state 0.4 (advance rotate_by (1 / 20) (advance rotate_by (1 / 20) sample_body))"
  unfolding advance_twice_sample_body
  by (simp add: sample_body_eval blend_state_def blend_rotation_def Mat4_identity_def)

theorem simulate_scenario_clamped_witness:
  "hook_keeps_clock (keep_state :: real \<Rightarrow> simulation \<Rightarrow> string + simulation) \<and>
   time_accumulator (Simulation_new\<lparr> bodies := [sample_body] \<rparr>) = 0 \<and>
   dt (Simulation_new\<lparr> bodies := [sample_body] \<rparr>) = 1 / 20 \<and>
   time_scale (Simulation_new\<lparr> bodies := [sample_body] \<rparr>) = 1 \<and>
   simulate rotate_by keep_state 0.12 (Simulation_new\<lparr> bodies := [sample_body] \<rparr>)
     = Some (Inr (Simulation_new
          \<lparr> t := 0.1,
            bodies := [blend_state 0 (advance rotate_by (1 / 20)
                                       (advance rotate_by (1 / 20) sample_body))],
            steps_taken := 2 \<rparr>))"
proof -
  have p: "time_accumulator (Simulation_new\<lparr> bodies := [sample_body] \<rparr>) = 0"
    "dt (Simulation_new\<lparr> bodies := [sample_body] \<rparr>) = 1 / 20"
    "time_scale (Simulation_new\<lparr> bodies := [sample_body] \<rparr>) = 1"
    by (simp_all add: Simulation_new_def)
  from simulate_scenario_clamped [OF keep_state_keeps_clock p, of rotate_by]
  show ?thesis
    using p keep_state_keeps_clock
    by (simp add: Simulation_new_def fixed_step_def keep_state_def Let_def)
qed

text \<open>
  The scenario as the spec states it fails on the code: the accumulator is raised to
  \<open>0.1\<close>, not \<open>0.12\<close>, so the two steps leave \<open>0\<close> behind, not \<open>0.02\<close>, and the
  Body is drawn at \<open>alpha = 0\<close>; its drawn location is not the one \<open>alpha = 0.4\<close>
  would give.
\<close>

theorem simulate_scenario_counterexample:
  "dt (Simulation_new\<lparr> bodies := [sample_body] \<rparr>) = 0.05 \<and>
   time_scale (Simulation_new\<lparr> bodies := [sample_body] \<rparr>) = 1 \<and>
   time_accumulator (Simulation_new\<lparr> bodies := [sample_body] \<rparr>) = 0 \<and>
   simulate rotate_by keep_state 0.12 (Simulation_new\<lparr> bodies := [sample_body] \<rparr>)
     = Some (Inr (Simulation_new
          \<lparr> t := 0.1,
            bodies := [blend_state 0 (advance rotate_by (1 / 20)
                                       (advance rotate_by (1 / 20) sample_body))],
            steps_taken := 2 \<rparr>)) \<and>
   time_accumulator (Simulation_new
          \<lparr> t := 0.1,
            bodies := [blend_state 0 (advance rotate_by (1 / 20)
                                       (advance rotate_by (1 / 20) sample_body))],
            steps_taken := 2 \<rparr>) \<noteq> 0.02 \<and>
   blend_state 0 (advance rotate_by (1 / 20) (advance rotate_by (1 / 20) sample_body))
     \<noteq> blend_state 0.4 (advance rotate_by (1 / 20) (advance rotate_by (1 / 20) sample_body))"
  using simulate_sample_run blend_sample_differs
  by (simp add: Simulation_new_def)

section \<open>The base class's hook\<close>

text \<open>
  C9: \<open>update_state\<close> of the base \<open>Simulation\<close> throws \<open>"Override this"\<close> for every
  argument and state, and so does every \<open>simulate\<close> call that has a fixed step to take
  (the accumulator, once the clamped frame time is added, holds at least \<open>dt\<close>): the
  first step throws before anything is advanced.
\<close>

theorem update_state_throws:
  "update_state d s = Inl ''Override this'' \<and>
   (dt s \<le> \<bar>time_accumulator s + min (time_scale s * frame_time) 0.1\<bar> \<longrightarrow>
      simulate R update_state frame_time s = Some (Inl ''Override this''))"
  by (simp add: update_state_def simulate_def simulate_loop_iter fixed_step_def Let_def)

theorem update_state_throws_witness:
  "dt Simulation_new \<le> \<bar>time_accumulator Simulation_new
                           + min (time_scale Simulation_new * 0.12) 0.1\<bar> \<and>
   update_state (dt Simulation_new) Simulation_new = Inl ''Override this'' \<and>
   simulate rotate_by update_state 0.12 Simulation_new = Some (Inl ''Override this'')"
  using update_state_throws [of "dt Simulation_new" Simulation_new "0.12" rotate_by]
  by (simp add: Simulation_new_def)

section \<open>Integration and interpolation of a Body\<close>

lemma advance_fields:
  "previous (advance R d b) = \<lparr> center = center b, rotation = rotation b \<rparr>"
  "center (advance R d b) = plus3 (center b) (times3 (linear_velocity b) d)"
  "linear_velocity (advance R d b) = linear_velocity b"
  by (cases b; simp add: advance_def Let_def)+

lemma plus3_times3_step:
  "plus3 (plus3 c (times3 v x)) (times3 v d) = plus3 c (times3 v (x + d))"
  by (cases c; cases v) (simp add: algebra_simps)

lemma plus3_times3_zero: "plus3 c (times3 v 0) = c"
  by (cases c; cases v) simp

lemma advance_iterated:
  "linear_velocity ((advance R d ^^ n) b) = linear_velocity b \<and>
   center ((advance R d ^^ n) b) = plus3 (center b) (times3 (linear_velocity b) (real n * d))"
proof (induction n)
  case 0
  show ?case by (simp add: plus3_times3_zero)
next
  case (Suc n)
  then show ?case
    by (simp add: advance_fields plus3_times3_step algebra_simps)
qed

text \<open>
  C5: \<open>advance(dt)\<close> stores the old \<open>center\<close> and \<open>rotation\<close> in \<open>previous\<close> and
  moves \<open>center\<close> to \<open>center + linear_velocity \<cdot> dt\<close>; it leaves
  \<open>linear_velocity\<close> alone, so \<open>n\<close> calls in a row move \<open>center\<close> to
  \<open>center + n \<cdot> dt \<cdot> linear_velocity\<close>. A Body at \<open>(0, 0, 0)\<close> with velocity
  \<open>(1, 0, 0)\<close> has, after one \<open>advance(0.1)\<close>, \<open>previous.center = (0, 0, 0)\<close> and
  \<open>center = (0.1, 0, 0)\<close>.
\<close>

theorem advance_linear_motion:
  "previous (advance R d b) = \<lparr> center = center b, rotation = rotation b \<rparr> \<and>
   center (advance R d b) = plus3 (center b) (times3 (linear_velocity b) d) \<and>
   center ((advance R d ^^ n) b)
     = plus3 (center b) (times3 (linear_velocity b) (real n * d)) \<and>
   (center b = Vec3 0 0 0 \<and> linear_velocity b = Vec3 1 0 0 \<longrightarrow>
      center (previous (advance R 0.1 b)) = Vec3 0 0 0 \<and>
      center (advance R 0.1 b) = Vec3 0.1 0 0)"
  by (simp add: advance_fields advance_iterated)

theorem advance_linear_motion_witness:
  "center sample_body = Vec3 0 0 0 \<and> linear_velocity sample_body = Vec3 1 0 0 \<and>
   center (previous (advance rotate_by 0.1 sample_body)) = Vec3 0 0 0 \<and>
   center (advance rotate_by 0.1 sample_body) = Vec3 0.1 0 0 \<and>
   center ((advance rotate_by 0.1 ^^ 3) sample_body) = Vec3 0.3 0 0"
  using advance_linear_motion [of rotate_by "0.1" sample_body 3]
  by (simp add: sample_body_eval)

lemma mix3_ends: "mix3 p c 0 = p" "mix3 p c 1 = c"
  by (cases p; cases c; simp)+

lemma mix4_ends: "mix4 p c 0 = p" "mix4 p c 1 = c"
  by (cases p; cases c; simp)+

lemma blend_rotation_ends:
  "blend_rotation b 0 = rotation (previous b)" "blend_rotation b 1 = rotation b"
  by (cases "rotation (previous b)"; cases "rotation b";
      simp add: blend_rotation_def mix4_ends)+

text \<open>
  C6: \<open>blend_state(alpha)\<close> sets \<open>drawn_location\<close> to
  \<open>translation(lerp(previous.center, center, alpha)) \<cdot> blend_rotation(alpha) \<cdot> scale(size)\<close>;
  at \<open>alpha = 0\<close> that is the transform of the previous state,
  \<open>translation(previous.center) \<cdot> previous.rotation \<cdot> scale(size)\<close>, and at
  \<open>alpha = 1\<close> the transform of the current state,
  \<open>translation(center) \<cdot> rotation \<cdot> scale(size)\<close>.
\<close>

theorem blend_state_drawn_location:
  "drawn_location (blend_state alpha b) =
     times_mat (times_mat (Mat4_translation (mix3 (center (previous b)) (center b) alpha))
                          (blend_rotation b alpha))
               (Mat4_scale (size_v b)) \<and>
   drawn_location (blend_state 0 b) =
     times_mat (times_mat (Mat4_translation (center (previous b))) (rotation (previous b)))
               (Mat4_scale (size_v b)) \<and>
   drawn_location (blend_state 1 b) =
     times_mat (times_mat (Mat4_translation (center b)) (rotation b))
               (Mat4_scale (size_v b))"
  by (simp add: blend_state_def mix3_ends blend_rotation_ends)

section \<open>Collision test\<close>

lemma row_times_assoc: "row_times (row_times v B) C = row_times v (times_mat B C)"
  by (cases v; cases B; cases C; rename_tac b0 b1 b2 b3 c0 c1 c2 c3;
      case_tac b0; case_tac b1; case_tac b2; case_tac b3;
      case_tac c0; case_tac c1; case_tac c2; case_tac c3)
     (simp add: algebra_simps)

lemma times_mat_assoc: "times_mat (times_mat A B) C = times_mat A (times_mat B C)"
  by (cases A) (simp add: row_times_assoc)

text \<open>
  C8: \<open>check_if_colliding\<close> returns false when the other Body is the receiver itself.
  Otherwise, when the receiver's cached \<open>inverse\<close> is \<open>inverse(drawn_location)\<close> (for
  whatever function \<open>Mat4_inverse\<close> the library's \<open>Mat4.inverse\<close> is), it returns
  whether some point \<open>p\<close> of \<open>collider.points\<close> passes
  \<open>intersect_test(T \<cdot> p, leeway)\<close>, where
  \<open>T = inverse(self.drawn_location) \<cdot> b.drawn_location \<cdot> scale(1, 1.5, 1)\<close>; the
  product \<open>T\<close> is left in the receiver's \<open>temp_matrix\<close>.
\<close>

theorem check_if_colliding_any_point:
  "check_if_colliding h a a cl = Inr (False, h) \<and>
   (a \<noteq> b \<and> inverse_m (h a) = Some (Mat4_inverse (drawn_location (h a))) \<longrightarrow>
      (let T = times_mat (times_mat (Mat4_inverse (drawn_location (h a)))
                                    (drawn_location (h b)))
                         (Mat4_scale (Vec3 1 1.5 1))
       in check_if_colliding h a b cl =
            Inr ((\<exists>p \<in> set (points cl).
                     intersect_test cl (to3 (times_vec T (to4 p 1))) (leeway cl)),
                 h(a := (h a)\<lparr> temp_matrix := T \<rparr>))))"
  by (simp add: check_if_colliding_def Let_def times_mat_assoc list_ex_iff)

lemma sample_store_eval:
  "drawn_location (sample_store 0) = Mat4_scale (Vec3 2 2 2)"
  "drawn_location (sample_store (Suc 0)) = Mat4_translation (Vec3 3 0 0)"
  "inverse_m (sample_store 0) = Some (Mat4_scale (Vec3 (1 / 2) (1 / 2) (1 / 2)))"
  by (simp_all add: sample_store_def blend_state_def blend_rotation_def emplace_def
      Mat4_identity_def Let_def)

theorem check_if_colliding_any_point_witness:
  "(0 :: ref) \<noteq> 1 \<and>
   inverse_m (sample_store 0)
     = Some (inverse_translation_scale (drawn_location (sample_store 0))) \<and>
   check_if_colliding sample_store 0 0 sample_collider = Inr (False, sample_store) \<and>
   check_if_colliding sample_store 0 1 sample_collider =
     Inr (True,
          sample_store
            (0 := (sample_store 0)
               \<lparr> temp_matrix :=
                   Mat4 (Vec4 (1 / 2) 0 0 (3 / 2)) (Vec4 0 (3 / 4) 0 0)
                        (Vec4 0 0 (1 / 2) 0) (Vec4 0 0 0 1) \<rparr>))"
  using check_if_colliding_any_point
    [of sample_store 0 sample_collider 1 inverse_translation_scale]
  by (simp add: sample_store_eval inverse_translation_scale_def sample_collider_def
      intersect_cube_def Let_def)

section \<open>Rounding to the nearest double\<close>

lemma pow2_powr: "pow2 e = 2 powr (real_of_int e)"
  by (simp add: pow2_def powr_int)

lemma pow2_pos: "0 < pow2 e"
  by (simp add: pow2_powr)

lemma pow2_add: "pow2 (a + b) = pow2 a * pow2 b"
  by (simp add: pow2_powr powr_add)

lemma pow2_mono: "a \<le> b \<Longrightarrow> pow2 a \<le> pow2 b"
  by (simp add: pow2_powr)

lemma pow2_Suc: "pow2 (e + 1) = 2 * pow2 e"
  by (simp add: pow2_add) (simp add: pow2_def)

lemma binade_ge: "- 1022 \<le> binade x"
  by (simp add: binade_def)

lemma binade_upper: "x \<noteq> 0 \<Longrightarrow> \<bar>x\<bar> < pow2 (binade x + 1)"
proof -
  assume x: "x \<noteq> 0"
  define k where "k = \<lfloor>log 2 \<bar>x\<bar>\<rfloor>"
  from x have "\<bar>x\<bar> < 2 powr (k + 1)"
    using floor_log_eq_powr_iff [of "\<bar>x\<bar>" 2 k] by (simp add: k_def)
  then have "\<bar>x\<bar> < pow2 (k + 1)" by (simp add: pow2_powr)
  also have "\<dots> \<le> pow2 (binade x + 1)"
    by (rule pow2_mono) (simp add: binade_def k_def)
  finally show ?thesis .
qed

lemma binade_lower: "x \<noteq> 0 \<Longrightarrow> - 1022 < binade x \<Longrightarrow> pow2 (binade x) \<le> \<bar>x\<bar>"
proof -
  assume x: "x \<noteq> 0" and b: "- 1022 < binade x"
  define k where "k = \<lfloor>log 2 \<bar>x\<bar>\<rfloor>"
  from b have "binade x = k" by (simp add: binade_def k_def max_def split: if_splits)
  moreover from x have "2 powr k \<le> \<bar>x\<bar>"
    using floor_log_eq_powr_iff [of "\<bar>x\<bar>" 2 k] by (simp add: k_def)
  ultimately show ?thesis by (simp add: pow2_powr)
qed

lemma binade_eqI:
  assumes "pow2 e \<le> \<bar>x\<bar>" and "\<bar>x\<bar> < pow2 (e + 1)" and "- 1022 \<le> e"
  shows "binade x = e"
proof -
  from assms(1) pow2_pos [of e] have x: "0 < \<bar>x\<bar>" by linarith
  have "\<lfloor>log 2 \<bar>x\<bar>\<rfloor> = e"
    using floor_log_eq_powr_iff [of "\<bar>x\<bar>" 2 e] x assms(1,2) by (simp add: pow2_powr)
  with assms(3) show ?thesis by (simp add: binade_def)
qed

lemma binade_subnormal:
  assumes "x \<noteq> 0" and "\<bar>x\<bar> < pow2 (- 1022)"
  shows "binade x = - 1022"
proof (rule ccontr)
  assume "binade x \<noteq> - 1022"
  with binade_ge [of x] have b: "- 1022 < binade x" by linarith
  from binade_lower [OF assms(1) b] have "pow2 (binade x) \<le> \<bar>x\<bar>" .
  moreover have "pow2 (- 1022) \<le> pow2 (binade x)"
    using b by (intro pow2_mono) simp
  ultimately show False using assms(2) by linarith
qed

lemma binade_minus: "binade (- x) = binade x"
  by (simp add: binade_def)

lemma round_even_bounds:
  "\<lfloor>x\<rfloor> \<le> round_even x" "round_even x \<le> \<lfloor>x\<rfloor> + 1"
  "\<bar>of_int (round_even x) - x\<bar> \<le> 1 / 2"
  by (simp_all add: round_even_def Let_def)

lemma round_even_of_int: "round_even (of_int n) = n"
  by (simp add: round_even_def)

lemma round_even_mono: "x \<le> y \<Longrightarrow> round_even x \<le> round_even y"
proof -
  assume xy: "x \<le> y"
  then have f: "\<lfloor>x\<rfloor> \<le> \<lfloor>y\<rfloor>" by (rule floor_mono)
  show ?thesis
  proof (cases "\<lfloor>x\<rfloor> = \<lfloor>y\<rfloor>")
    case True
    with xy show ?thesis by (auto simp: round_even_def Let_def)
  next
    case False
    with f have "\<lfloor>x\<rfloor> + 1 \<le> \<lfloor>y\<rfloor>" by linarith
    with round_even_bounds(2) [of x] round_even_bounds(1) [of y] show ?thesis by linarith
  qed
qed

lemma fl_zero: "fl 0 = 0"
  by (simp add: fl_def)

lemma fl_minus: "fl (- x) = - fl x"
  by (simp add: fl_def binade_minus sgn_minus)

text \<open>The value of \<open>fl\<close> at a number whose binade is known.\<close>

lemma fl_eval:
  assumes "pow2 e \<le> \<bar>x\<bar>" and "\<bar>x\<bar> < pow2 (e + 1)" and "- 1022 \<le> e"
  shows "fl x = sgn x * (of_int (round_even (\<bar>x\<bar> / pow2 (e - 52))) * pow2 (e - 52))"
proof -
  from assms(1) pow2_pos [of e] have "x \<noteq> 0" by auto
  then show ?thesis by (simp add: fl_def binade_eqI [OF assms])
qed

lemma fl_pos_eq:
  "0 < x \<Longrightarrow> fl x = of_int (round_even (x / pow2 (binade x - 52))) * pow2 (binade x - 52)"
  by (simp add: fl_def)

lemma fl_nonneg: "0 \<le> x \<Longrightarrow> 0 \<le> fl x"
proof (cases "x = 0")
  case True
  then show ?thesis by (simp add: fl_zero)
next
  case False
  assume "0 \<le> x"
  with False have x: "0 < x" by simp
  have "0 \<le> x / pow2 (binade x - 52)"
    using x pow2_pos [of "binade x - 52"] by simp
  then have "0 \<le> \<lfloor>x / pow2 (binade x - 52)\<rfloor>" by simp
  with round_even_bounds(1) [of "x / pow2 (binade x - 52)"]
  have "0 \<le> round_even (x / pow2 (binade x - 52))" by linarith
  then show ?thesis
    using x pow2_pos [of "binade x - 52"] by (simp add: fl_pos_eq)
qed

text \<open>Rounding moves a number by at most half the spacing of its binade.\<close>

lemma fl_error: "\<bar>fl x - x\<bar> \<le> pow2 (binade x - 53)"
proof (cases "x = 0")
  case True
  then show ?thesis using pow2_pos [of "binade x - 53"] by (simp add: fl_zero)
next
  case False
  define u where "u = pow2 (binade x - 52)"
  have u: "0 < u" by (simp add: u_def pow2_pos)
  have h: "pow2 (binade x - 53) = u / 2"
    using pow2_Suc [of "binade x - 53"] by (simp add: u_def)
  have "fl x - x = sgn x * ((of_int (round_even (\<bar>x\<bar> / u)) - \<bar>x\<bar> / u) * u)"
    using u False by (simp add: fl_def u_def algebra_simps sgn_if)
  then have "\<bar>fl x - x\<bar> = \<bar>of_int (round_even (\<bar>x\<bar> / u)) - \<bar>x\<bar> / u\<bar> * u"
    using u False by (simp add: abs_mult sgn_if)
  also have "\<dots> \<le> 1 / 2 * u"
    using round_even_bounds(3) [of "\<bar>x\<bar> / u"] u by (intro mult_right_mono) simp_all
  finally show ?thesis by (simp add: h)
qed

lemma pow2_53: "pow2 (e + 1) = of_int (2 ^ 53) * pow2 (e - 52)"
proof -
  have p: "pow2 53 = of_int (2 ^ 53)" by (simp add: pow2_def)
  have "e + 1 = 53 + (e - 52)" by simp
  then have "pow2 (e + 1) = pow2 53 * pow2 (e - 52)" by (simp only: pow2_add)
  then show ?thesis by (simp only: p)
qed

lemma pow2_52: "pow2 e = of_int (2 ^ 52) * pow2 (e - 52)"
proof -
  have p: "pow2 52 = of_int (2 ^ 52)" by (simp add: pow2_def)
  have "e = 52 + (e - 52)" by simp
  then have "pow2 e = pow2 52 * pow2 (e - 52)" by (metis pow2_add)
  then show ?thesis by (simp only: p)
qed

lemma pow2_nat: "0 \<le> k \<Longrightarrow> pow2 k = of_int (2 ^ nat k)"
  by (simp add: pow2_def)

text \<open>The mantissa that \<open>fl\<close> chooses has at most 53 bits, and 53 bits exactly in a
  normal binade.\<close>

lemma mantissa_upper:
  assumes "x \<noteq> 0"
  shows "round_even (\<bar>x\<bar> / pow2 (binade x - 52)) \<le> 2 ^ 53"
proof -
  define u where "u = pow2 (binade x - 52)"
  have u: "0 < u" by (simp add: u_def pow2_pos)
  have "\<bar>x\<bar> < of_int (2 ^ 53) * u"
    using binade_upper [OF assms] by (simp add: pow2_53 u_def)
  then have "\<bar>x\<bar> / u \<le> of_int (2 ^ 53)"
    using u by (simp add: pos_divide_le_eq)
  from round_even_mono [OF this] show ?thesis
    by (simp only: round_even_of_int u_def)
qed

lemma mantissa_lower:
  assumes "x \<noteq> 0" and "- 1022 < binade x"
  shows "2 ^ 52 \<le> round_even (\<bar>x\<bar> / pow2 (binade x - 52))"
proof -
  define u where "u = pow2 (binade x - 52)"
  have u: "0 < u" by (simp add: u_def pow2_pos)
  have "of_int (2 ^ 52) * u \<le> \<bar>x\<bar>"
    using binade_lower [OF assms] pow2_52 [of "binade x"] by (simp add: u_def)
  then have "of_int (2 ^ 52) \<le> \<bar>x\<bar> / u"
    using u by (simp add: pos_le_divide_eq)
  from round_even_mono [OF this] show ?thesis
    by (simp only: round_even_of_int u_def)
qed

lemma fl_upper: "0 < x \<Longrightarrow> fl x \<le> pow2 (binade x + 1)"
proof -
  assume x: "0 < x"
  then have "x \<noteq> 0" by simp
  from mantissa_upper [OF this] x
  have "real_of_int (round_even (x / pow2 (binade x - 52))) \<le> of_int (2 ^ 53)"
    by (simp only: of_int_le_iff abs_of_pos)
  then have "real_of_int (round_even (x / pow2 (binade x - 52))) * pow2 (binade x - 52)
               \<le> of_int (2 ^ 53) * pow2 (binade x - 52)"
    using pow2_pos [of "binade x - 52"] by (intro mult_right_mono) simp_all
  then show ?thesis using x by (simp only: fl_pos_eq pow2_53)
qed

lemma fl_lower: "0 < x \<Longrightarrow> - 1022 < binade x \<Longrightarrow> pow2 (binade x) \<le> fl x"
proof -
  assume x: "0 < x" and b: "- 1022 < binade x"
  then have "x \<noteq> 0" by simp
  from mantissa_lower [OF this b] x
  have "of_int (2 ^ 52) \<le> real_of_int (round_even (x / pow2 (binade x - 52)))"
    by (simp only: of_int_le_iff abs_of_pos)
  then have "of_int (2 ^ 52) * pow2 (binade x - 52)
               \<le> real_of_int (round_even (x / pow2 (binade x - 52))) * pow2 (binade x - 52)"
    using pow2_pos [of "binade x - 52"] by (intro mult_right_mono) simp_all
  then show ?thesis using x pow2_52 [of "binade x"] by (simp only: fl_pos_eq)
qed

lemma binade_mono: "0 < x \<Longrightarrow> x \<le> y \<Longrightarrow> binade x \<le> binade y"
proof -
  assume x: "0 < x" and xy: "x \<le> y"
  then have "log 2 \<bar>x\<bar> \<le> log 2 \<bar>y\<bar>" by simp
  then have "\<lfloor>log 2 \<bar>x\<bar>\<rfloor> \<le> \<lfloor>log 2 \<bar>y\<bar>\<rfloor>" by (rule floor_mono)
  then show ?thesis by (simp add: binade_def)
qed

lemma fl_mono_pos:
  assumes x: "0 < x" and xy: "x \<le> y"
  shows "fl x \<le> fl y"
proof (cases "binade x = binade y")
  case True
  define u where "u = pow2 (binade y - 52)"
  have u: "0 < u" by (simp add: u_def pow2_pos)
  have "x / u \<le> y / u" using xy u by (simp add: divide_right_mono)
  then have "round_even (x / u) \<le> round_even (y / u)" by (rule round_even_mono)
  then have "real_of_int (round_even (x / u)) * u \<le> real_of_int (round_even (y / u)) * u"
    using u by (intro mult_right_mono) simp_all
  then show ?thesis using x xy True by (simp add: fl_pos_eq u_def)
next
  case False
  with binade_mono [OF x xy] have lt: "binade x < binade y" by simp
  from x xy have y: "0 < y" by simp
  have "fl x \<le> pow2 (binade x + 1)" using x by (rule fl_upper)
  also have "\<dots> \<le> pow2 (binade y)" using lt by (intro pow2_mono) simp
  also have "\<dots> \<le> fl y"
    using y lt binade_ge [of x] by (intro fl_lower) simp_all
  finally show ?thesis .
qed

text \<open>Rounding is monotone.\<close>

lemma fl_mono: "x \<le> y \<Longrightarrow> fl x \<le> fl y"
proof -
  assume xy: "x \<le> y"
  consider "0 < x" | "x \<le> 0" "0 \<le> y" | "y < 0" by linarith
  then show ?thesis
  proof cases
    case 1
    then show ?thesis using xy by (rule fl_mono_pos)
  next
    case 2
    from 2(1) have "0 \<le> fl (- x)" by (intro fl_nonneg) simp
    then have "fl x \<le> 0" by (simp add: fl_minus)
    also have "0 \<le> fl y" using 2(2) by (rule fl_nonneg)
    finally show ?thesis .
  next
    case 3
    then have "0 < - y" "- y \<le> - x" using xy by simp_all
    then have "fl (- y) \<le> fl (- x)" by (rule fl_mono_pos)
    then show ?thesis by (simp add: fl_minus)
  qed
qed

text \<open>Every multiple \<open>n \<cdot> 2\<^sup>e\<^sup>-\<^sup>5\<^sup>2\<close> with \<open>\<bar>n\<bar> \<le> 2\<^sup>5\<^sup>3\<close> and \<open>e \<ge> -1022\<close> is a
  double: rounding leaves it alone.\<close>

lemma fl_grid_pos:
  assumes e: "- 1022 \<le> e" and n: "0 < n" "n \<le> 2 ^ 53"
  shows "fl (of_int n * pow2 (e - 52)) = of_int n * pow2 (e - 52)"
proof -
  define z where "z = real_of_int n * pow2 (e - 52)"
  have z: "0 < z" using n(1) pow2_pos [of "e - 52"] by (simp add: z_def)
  have zle: "z \<le> pow2 (e + 1)"
  proof -
    have "real_of_int n \<le> of_int (2 ^ 53)" using n(2) by (simp only: of_int_le_iff)
    then have "real_of_int n * pow2 (e - 52) \<le> of_int (2 ^ 53) * pow2 (e - 52)"
      using pow2_pos [of "e - 52"] by (intro mult_right_mono) simp_all
    then show ?thesis by (simp only: z_def pow2_53)
  qed
  have be: "binade z \<le> e + 1"
  proof (rule ccontr)
    assume "\<not> binade z \<le> e + 1"
    then have gt: "e + 1 < binade z" by simp
    with e have "- 1022 < binade z" by simp
    with z have "pow2 (binade z) \<le> z" using binade_lower [of z] by simp
    moreover have "pow2 (e + 2) \<le> pow2 (binade z)" using gt by (intro pow2_mono) simp
    moreover have "pow2 (e + 1) < pow2 (e + 2)"
      using pow2_Suc [of "e + 1"] pow2_pos [of "e + 1"] by (simp add: add.commute)
    ultimately show False using zle by linarith
  qed
  define k where "k = e + 1 - binade z"
  have k: "0 \<le> k" using be by (simp add: k_def)
  have "fl z = z"
  proof (cases "k = 0")
    case True
    then have b: "binade z = e + 1" by (simp add: k_def)
    with e have "- 1022 < binade z" by simp
    with z have "pow2 (e + 1) \<le> z" using binade_lower [of z] b by simp
    with zle have zeq: "z = pow2 (e + 1)" by simp
    have m: "z = of_int (2 ^ 52) * pow2 (e + 1 - 52)"
      using pow2_52 [of "e + 1"] by (simp only: zeq)
    have "z / pow2 (e + 1 - 52) = of_int (2 ^ 52)"
      using pow2_pos [of "e + 1 - 52"] by (subst m) simp
    then have r: "round_even (z / pow2 (e + 1 - 52)) = 2 ^ 52"
      by (simp only: round_even_of_int)
    have "fl z = of_int (round_even (z / pow2 (binade z - 52))) * pow2 (binade z - 52)"
      using z by (rule fl_pos_eq)
    also have "\<dots> = of_int (2 ^ 52) * pow2 (e + 1 - 52)"
      by (simp only: b r)
    also have "\<dots> = z" by (simp only: m)
    finally show ?thesis .
  next
    case False
    with k have k1: "0 \<le> k - 1" by simp
    have sp: "pow2 (e - 52) = of_int (2 ^ nat (k - 1)) * pow2 (binade z - 52)"
    proof -
      have "pow2 (e - 52) = pow2 ((k - 1) + (binade z - 52))" by (simp add: k_def)
      also have "\<dots> = pow2 (k - 1) * pow2 (binade z - 52)" by (rule pow2_add)
      finally show ?thesis using k1 by (simp only: pow2_nat)
    qed
    have m: "z = of_int (n * 2 ^ nat (k - 1)) * pow2 (binade z - 52)"
    proof -
      have "z = real_of_int n * pow2 (e - 52)" by (simp only: z_def)
      also have "\<dots> = real_of_int n * (of_int (2 ^ nat (k - 1)) * pow2 (binade z - 52))"
        by (simp only: sp)
      finally show ?thesis by simp
    qed
    have "z / pow2 (binade z - 52) = of_int (n * 2 ^ nat (k - 1))"
      using pow2_pos [of "binade z - 52"] by (subst m) simp
    then have r: "round_even (z / pow2 (binade z - 52)) = n * 2 ^ nat (k - 1)"
      by (simp only: round_even_of_int)
    have "fl z = of_int (round_even (z / pow2 (binade z - 52))) * pow2 (binade z - 52)"
      using z by (rule fl_pos_eq)
    also have "\<dots> = z" by (simp only: r m [symmetric])
    finally show ?thesis .
  qed
  then show ?thesis by (simp only: z_def)
qed

lemma fl_grid:
  assumes "- 1022 \<le> e" and "\<bar>n\<bar> \<le> 2 ^ 53"
  shows "fl (of_int n * pow2 (e - 52)) = of_int n * pow2 (e - 52)"
proof -
  consider "n = 0" | "0 < n" | "n < 0" by linarith
  then show ?thesis
  proof cases
    case 1
    then show ?thesis by (simp add: fl_zero)
  next
    case 2
    with assms show ?thesis by (intro fl_grid_pos) simp_all
  next
    case 3
    with assms have "fl (of_int (- n) * pow2 (e - 52)) = of_int (- n) * pow2 (e - 52)"
      by (intro fl_grid_pos) simp_all
    then show ?thesis by (simp add: fl_minus)
  qed
qed

text \<open>A rounded number is a double.\<close>

lemma fl_idem: "fl (fl x) = fl x"
proof (cases "x = 0")
  case True
  then show ?thesis by (simp add: fl_zero)
next
  case False
  define n where "n = round_even (\<bar>x\<bar> / pow2 (binade x - 52))"
  have n0: "0 \<le> n"
  proof -
    have "0 \<le> \<bar>x\<bar> / pow2 (binade x - 52)" using pow2_pos [of "binade x - 52"] by simp
    then have "0 \<le> \<lfloor>\<bar>x\<bar> / pow2 (binade x - 52)\<rfloor>" by simp
    with round_even_bounds(1) [of "\<bar>x\<bar> / pow2 (binade x - 52)"] show ?thesis
      unfolding n_def by linarith
  qed
  have n1: "n \<le> 2 ^ 53" using mantissa_upper [OF False] by (simp add: n_def)
  have g: "fl (of_int n * pow2 (binade x - 52)) = of_int n * pow2 (binade x - 52)"
    using n0 n1 binade_ge [of x] by (intro fl_grid) simp_all
  have "fl x = sgn x * (of_int n * pow2 (binade x - 52))"
    using False by (simp add: fl_def n_def)
  then show ?thesis
    using g False by (cases "0 < x") (simp_all add: sgn_if fl_minus)
qed

section \<open>The stepping loop in doubles\<close>

lemma simulate_loop_d_exit:
  "\<not> dt s \<le> \<bar>time_accumulator s\<bar> \<Longrightarrow> simulate_loop_d R upd ft s = Some (Inr s)"
  by (subst simulate_loop_d.simps) simp

lemma simulate_loop_d_iter:
  "dt s \<le> \<bar>time_accumulator s\<bar> \<Longrightarrow>
     simulate_loop_d R upd ft s =
       (case fixed_step_d R upd ft s of
          Inl e \<Rightarrow> Some (Inl e)
        | Inr s1 \<Rightarrow> simulate_loop_d R upd ft s1)"
  by (subst simulate_loop_d.simps) simp

lemma fixed_step_d_clock:
  assumes "hook_keeps_clock upd" and "fixed_step_d R upd ft s = Inr s1"
  shows "time_accumulator s1 = fl (time_accumulator s - fl (sgn ft * dt s))"
    and "dt s1 = dt s" and "time_scale s1 = time_scale s"
    and "steps_taken s1 = Suc (steps_taken s)"
  using assms
  by (auto simp: fixed_step_d_def hook_keeps_clock_def Let_def split: sum.splits)

lemma blend_bodies_d_clock:
  "time_accumulator (blend_bodies_d s) = time_accumulator s"
  "dt (blend_bodies_d s) = dt s" "time_scale (blend_bodies_d s) = time_scale s"
  "steps_taken (blend_bodies_d s) = steps_taken s"
  by (simp_all add: blend_bodies_d_def Let_def)

text \<open>The doubles of the constructor's step size and of the clamp: \<open>0.1\<close> is twice
  \<open>1 / 20\<close> also as a double.\<close>

lemma fl_twentieth: "fl (1 / 20) = 3602879701896397 / 72057594037927936"
  by (subst fl_eval [where e = "- 5"]) (simp_all add: pow2_def round_even_def Let_def)

lemma fl_tenth: "fl (1 / 10) = 3602879701896397 / 36028797018963968"
  by (subst fl_eval [where e = "- 4"]) (simp_all add: pow2_def round_even_def Let_def)

text \<open>The largest double below \<open>dt\<close>: a double smaller than \<open>dt\<close> in magnitude is at
  most that.\<close>

lemma double_below_dt:
  assumes a: "fl a = a" and lt: "\<bar>a\<bar> < fl (1 / 20)"
  shows "\<bar>a\<bar> \<le> 7205759403792793 / 144115188075855872"
proof (cases "\<bar>a\<bar> < pow2 (- 5)")
  case True
  then show ?thesis by (simp add: pow2_def)
next
  case False
  then have lo: "pow2 (- 5) \<le> \<bar>a\<bar>" by simp
  have hi: "\<bar>a\<bar> < pow2 (- 5 + 1)"
    using lt by (simp add: fl_twentieth pow2_def)
  define n where "n = round_even (\<bar>a\<bar> / pow2 (- 5 - 52))"
  from lo pow2_pos [of "- 5"] have nz: "a \<noteq> 0" by auto
  have "fl a = sgn a * (of_int n * pow2 (- 5 - 52))"
    unfolding n_def by (rule fl_eval [OF lo hi]) simp
  with a have "\<bar>a\<bar> = \<bar>sgn a * (of_int n * pow2 (- 5 - 52))\<bar>" by simp
  also have "\<dots> = \<bar>real_of_int n\<bar> / 144115188075855872"
    using nz by (simp add: abs_mult pow2_def sgn_if)
  finally have e: "\<bar>a\<bar> = \<bar>real_of_int n\<bar> / 144115188075855872" .
  with lt have "\<bar>real_of_int n\<bar> < 7205759403792794"
    by (simp add: fl_twentieth)
  then have "\<bar>n\<bar> < 7205759403792794" by linarith
  then have "\<bar>n\<bar> \<le> 7205759403792793" by simp
  then have "\<bar>real_of_int n\<bar> \<le> 7205759403792793" by linarith
  then show ?thesis by (simp add: e)
qed

section \<open>Steps per call\<close>

lemma fixed_step_d_forward:
  assumes hk: "hook_keeps_clock upd" and fs: "fixed_step_d R upd ft s = Inr s1"
    and ft: "0 < ft" and d: "dt s = fl (1 / 20)"
    and lo: "dt s \<le> time_accumulator s" and hi: "time_accumulator s \<le> X"
  shows "dt s1 = fl (1 / 20)" and "0 \<le> time_accumulator s1"
    and "time_accumulator s1 \<le> fl (X - fl (1 / 20))"
    and "steps_taken s1 = Suc (steps_taken s)"
proof -
  note c = fixed_step_d_clock [OF hk fs]
  from ft have sg: "sgn ft = 1" by simp
  have a: "time_accumulator s1 = fl (time_accumulator s - fl (1 / 20))"
    using c(1) by (simp add: sg d fl_idem)
  show "dt s1 = fl (1 / 20)" using c(2) d by simp
  show "steps_taken s1 = Suc (steps_taken s)" by (rule c(4))
  have "0 \<le> time_accumulator s - fl (1 / 20)" using lo d by simp
  then show "0 \<le> time_accumulator s1" unfolding a by (rule fl_nonneg)
  have "time_accumulator s - fl (1 / 20) \<le> X - fl (1 / 20)" using hi by simp
  then show "time_accumulator s1 \<le> fl (X - fl (1 / 20))" unfolding a by (rule fl_mono)
qed

text \<open>The largest accumulator a call can start its loop with, when the scaled frame
  time is not negative, and what one and two steps leave of it.\<close>

lemma fl_most_pending:
  "fl (7205759403792793 / 144115188075855872 + fl (1 / 10))
     = 5404319552844595 / 36028797018963968"
  unfolding fl_tenth
  by (subst fl_eval [where e = "- 3"]) (simp_all add: pow2_def round_even_def Let_def)

lemma fl_most_pending_1:
  "fl (5404319552844595 / 36028797018963968 - fl (1 / 20))
     = 7205759403792793 / 72057594037927936"
  unfolding fl_twentieth
  by (subst fl_eval [where e = "- 4"]) (simp_all add: pow2_def round_even_def Let_def)

lemma fl_most_pending_2:
  "fl (7205759403792793 / 72057594037927936 - fl (1 / 20))
     = 900719925474099 / 18014398509481984"
  unfolding fl_twentieth
  by (subst fl_eval [where e = "- 5"]) (simp_all add: pow2_def round_even_def Let_def)

lemma fl_below_dt:
  "fl (7205759403792793 / 144115188075855872) = 7205759403792793 / 144115188075855872"
  by (subst fl_eval [where e = "- 5"]) (simp_all add: pow2_def round_even_def Let_def)

lemma simulate_loop_d_no_step:
  assumes "\<bar>time_accumulator s\<bar> < dt s"
  shows "\<exists>r. simulate_loop_d R upd ft s = Some r \<and>
     (\<forall>s'. r = Inr s' \<longrightarrow> steps_taken s' = steps_taken s)"
  using assms by (simp add: simulate_loop_d_exit)

lemma simulate_loop_d_one_step:
  assumes hk: "hook_keeps_clock upd" and ft: "0 < ft" and d: "dt s = fl (1 / 20)"
    and lo: "0 \<le> time_accumulator s"
    and hi: "time_accumulator s \<le> 7205759403792793 / 72057594037927936"
  shows "\<exists>r. simulate_loop_d R upd ft s = Some r \<and>
     (\<forall>s'. r = Inr s' \<longrightarrow> steps_taken s \<le> steps_taken s' \<and> steps_taken s' \<le> steps_taken s + 1)"
proof (cases "dt s \<le> \<bar>time_accumulator s\<bar>")
  case False
  then show ?thesis by (simp add: simulate_loop_d_exit)
next
  case True
  with lo have big: "dt s \<le> time_accumulator s" by simp
  show ?thesis
  proof (cases "fixed_step_d R upd ft s")
    case (Inl e)
    with True show ?thesis by (simp add: simulate_loop_d_iter)
  next
    case (Inr s1)
    note f = fixed_step_d_forward [OF hk Inr ft d big hi]
    have "\<bar>time_accumulator s1\<bar> < dt s1"
      using f(1,2,3) by (simp add: fl_most_pending_2) (simp add: fl_twentieth)
    from simulate_loop_d_no_step [OF this, of R upd ft] True Inr f(4)
    show ?thesis by (auto simp: simulate_loop_d_iter)
  qed
qed

lemma simulate_loop_d_two_steps:
  assumes hk: "hook_keeps_clock upd" and ft: "0 < ft" and d: "dt s = fl (1 / 20)"
    and lo: "- dt s < time_accumulator s"
    and hi: "time_accumulator s \<le> 5404319552844595 / 36028797018963968"
  shows "\<exists>r. simulate_loop_d R upd ft s = Some r \<and>
     (\<forall>s'. r = Inr s' \<longrightarrow> steps_taken s \<le> steps_taken s' \<and> steps_taken s' \<le> steps_taken s + 2)"
proof (cases "dt s \<le> \<bar>time_accumulator s\<bar>")
  case False
  then show ?thesis by (simp add: simulate_loop_d_exit)
next
  case True
  with lo have big: "dt s \<le> time_accumulator s" by linarith
  show ?thesis
  proof (cases "fixed_step_d R upd ft s")
    case (Inl e)
    with True show ?thesis by (simp add: simulate_loop_d_iter)
  next
    case (Inr s1)
    note f = fixed_step_d_forward [OF hk Inr ft d big hi]
    have hi1: "time_accumulator s1 \<le> 7205759403792793 / 72057594037927936"
      using f(3) by (simp only: fl_most_pending_1)
    from simulate_loop_d_one_step [OF hk ft f(1,2) hi1, of R] True Inr f(4)
    show ?thesis by (auto simp: simulate_loop_d_iter)
  qed
qed

text \<open>
  C3, as amended, on the doubles of the code: on a Simulation with the constructor's
  \<open>dt = 1 / 20\<close>, from a state whose accumulator is a double with
  \<open>\<bar>time_accumulator\<bar> < dt\<close>, for a hook that keeps the clock and a scaled frame time
  \<open>time_scale \<cdot> frame_time \<ge> 0\<close>, \<open>simulate\<close> returns, and a call that returns normally
  has run at most \<open>0.1 / dt = 2\<close> fixed steps.
\<close>

theorem simulate_d_steps_bounded:
  assumes "hook_keeps_clock upd" and "dt s = fl (1 / 20)"
    and "fl (time_accumulator s) = time_accumulator s"
    and "\<bar>time_accumulator s\<bar> < dt s"
    and "0 \<le> fl (time_scale s * frame_time)"
  shows "(\<exists>r. simulate_d R upd frame_time s = Some r) \<and>
         (\<forall>s'. simulate_d R upd frame_time s = Some (Inr s') \<longrightarrow>
            steps_taken s \<le> steps_taken s' \<and>
            real (steps_taken s' - steps_taken s) \<le> fl 0.1 / dt s \<and>
            fl 0.1 / dt s = 2)"
proof -
  define ft where "ft = fl (time_scale s * frame_time)"
  define s1 where
    "s1 = s\<lparr> time_accumulator := fl (time_accumulator s + min ft (fl 0.1)) \<rparr>"
  have sim: "simulate_d R upd frame_time s =
      (case simulate_loop_d R upd ft s1 of
         None \<Rightarrow> None
       | Some (Inl e) \<Rightarrow> Some (Inl e)
       | Some (Inr s2) \<Rightarrow> Some (Inr (blend_bodies_d s2)))"
    by (simp add: simulate_d_def ft_def s1_def Let_def)
  have d1: "dt s1 = fl (1 / 20)" and st1: "steps_taken s1 = steps_taken s"
    using assms(2) by (simp_all add: s1_def)
  note below = double_below_dt [OF assms(3)]
  have p: "\<bar>time_accumulator s\<bar> \<le> 7205759403792793 / 144115188075855872"
    using assms(4) below by (simp add: assms(2))
  have two: "fl 0.1 / dt s = 2"
    by (simp add: assms(2) fl_twentieth fl_tenth)
  have loop: "\<exists>r. simulate_loop_d R upd ft s1 = Some r \<and>
     (\<forall>s'. r = Inr s' \<longrightarrow> steps_taken s1 \<le> steps_taken s' \<and> steps_taken s' \<le> steps_taken s1 + 2)"
  proof (cases "ft = 0")
    case True
    then have "time_accumulator s1 = time_accumulator s"
      by (simp add: s1_def fl_tenth assms(3))
    then have "\<bar>time_accumulator s1\<bar> < dt s1"
      using assms(2,4) d1 by simp
    from simulate_loop_d_no_step [OF this, of R upd ft] show ?thesis by auto
  next
    case False
    with assms(5) have ft: "0 < ft" by (simp add: ft_def)
    define m where "m = min ft (fl 0.1)"
    have m: "0 \<le> m" "m \<le> fl (1 / 10)"
      using ft by (simp_all add: m_def fl_tenth)
    have a1: "time_accumulator s1 = fl (time_accumulator s + m)"
      by (simp add: s1_def m_def)
    have "time_accumulator s + m \<le> 7205759403792793 / 144115188075855872 + fl (1 / 10)"
      using p m by linarith
    then have hi: "time_accumulator s1 \<le> 5404319552844595 / 36028797018963968"
      unfolding a1 fl_most_pending [symmetric] by (rule fl_mono)
    have "- (7205759403792793 / 144115188075855872) \<le> time_accumulator s + m"
      using p m by linarith
    then have "fl (- (7205759403792793 / 144115188075855872)) \<le> time_accumulator s1"
      unfolding a1 by (rule fl_mono)
    then have lo: "- dt s1 < time_accumulator s1"
      by (simp add: fl_minus fl_below_dt d1 fl_twentieth)
    from simulate_loop_d_two_steps [OF assms(1) ft d1 lo hi] show ?thesis .
  qed
  then obtain r where r: "simulate_loop_d R upd ft s1 = Some r"
    and rr: "\<forall>s'. r = Inr s' \<longrightarrow>
               steps_taken s1 \<le> steps_taken s' \<and> steps_taken s' \<le> steps_taken s1 + 2"
    by blast
  have ex: "\<exists>r. simulate_d R upd frame_time s = Some r"
    using r by (cases r) (simp_all add: sim)
  have "steps_taken s \<le> steps_taken s' \<and>
        real (steps_taken s' - steps_taken s) \<le> fl 0.1 / dt s \<and> fl 0.1 / dt s = 2"
    if "simulate_d R upd frame_time s = Some (Inr s')" for s'
  proof -
    from that r obtain s2 where "r = Inr s2" and "s' = blend_bodies_d s2"
      by (cases r) (simp_all add: sim)
    with rr have "steps_taken s \<le> steps_taken s'" "steps_taken s' \<le> steps_taken s + 2"
      by (simp_all add: blend_bodies_d_clock st1)
    then show ?thesis unfolding two by simp
  qed
  with ex show ?thesis by blast
qed

section \<open>Steps over a run of frames\<close>

lemma fl_error_quarter:
  assumes "\<bar>x\<bar> < 1 / 4"
  shows "\<bar>fl x - x\<bar> \<le> 1 / 2 ^ 56"
proof (cases "x = 0")
  case True
  then show ?thesis by (simp add: fl_zero)
next
  case False
  have "binade x \<le> - 3"
  proof (rule ccontr)
    assume "\<not> binade x \<le> - 3"
    then have b: "- 2 \<le> binade x" by simp
    then have "- 1022 < binade x" by simp
    from binade_lower [OF False this] have "pow2 (binade x) \<le> \<bar>x\<bar>" .
    moreover have "pow2 (- 2) \<le> pow2 (binade x)" using b by (rule pow2_mono)
    ultimately show False using assms by (simp add: pow2_def)
  qed
  then have "pow2 (binade x - 53) \<le> pow2 (- 56)" by (intro pow2_mono) simp
  with fl_error [of x] show ?thesis by (simp add: pow2_def)
qed

lemma simulate_loop_d_forward:
  assumes hk: "hook_keeps_clock upd" and ft: "0 < ft"
  shows "dt s = fl (1 / 20) \<Longrightarrow> 0 \<le> time_accumulator s \<Longrightarrow> time_accumulator s < 1 / 4 \<Longrightarrow>
     fl (time_accumulator s) = time_accumulator s \<Longrightarrow>
     \<exists>r. simulate_loop_d R upd ft s = Some r \<and> (\<forall>s'. r = Inr s' \<longrightarrow> clock_after_d s s')"
proof (induction "nat \<lfloor>time_accumulator s * 32\<rfloor>" arbitrary: s rule: less_induct)
  case less
  note d = less.prems(1) and lo = less.prems(2) and hi = less.prems(3) and db = less.prems(4)
  show ?case
  proof (cases "dt s \<le> \<bar>time_accumulator s\<bar>")
    case False
    then show ?thesis
      using lo db by (simp add: simulate_loop_d_exit clock_after_d_def)
  next
    case True
    with lo have big: "dt s \<le> time_accumulator s" by simp
    show ?thesis
    proof (cases "fixed_step_d R upd ft s")
      case (Inl e)
      with True show ?thesis by (simp add: simulate_loop_d_iter)
    next
      case (Inr s1)
      note c = fixed_step_d_clock [OF hk Inr]
      from ft have sg: "sgn ft = 1" by simp
      define x where "x = time_accumulator s - fl (1 / 20)"
      have a1: "time_accumulator s1 = fl x"
        using c(1) by (simp add: sg d fl_idem x_def)
      have x0: "0 \<le> x" using big d by (simp add: x_def)
      have x1: "x < 1 / 4" using hi by (simp add: x_def fl_twentieth)
      have er: "\<bar>time_accumulator s1 - x\<bar> \<le> 1 / 2 ^ 56"
        unfolding a1 using x0 x1 by (intro fl_error_quarter) simp
      have n0: "0 \<le> time_accumulator s1" unfolding a1 using x0 by (rule fl_nonneg)
      have dec: "time_accumulator s1 \<le> time_accumulator s - 1 / 32"
      proof -
        have "(1::real) / 2 ^ 56 = 1 / 72057594037927936" by simp
        with er have "time_accumulator s1 \<le> x + 1 / 72057594037927936" by linarith
        then show ?thesis by (simp add: x_def fl_twentieth)
      qed
      have n1: "time_accumulator s1 < 1 / 4" using dec hi by simp
      have db1: "fl (time_accumulator s1) = time_accumulator s1"
        unfolding a1 by (rule fl_idem)
      have d1: "dt s1 = fl (1 / 20)" using c(2) d by simp
      have "\<lfloor>time_accumulator s1 * 32\<rfloor> \<le> \<lfloor>time_accumulator s * 32 - 1\<rfloor>"
        using dec by (intro floor_mono) simp
      then have "\<lfloor>time_accumulator s1 * 32\<rfloor> < \<lfloor>time_accumulator s * 32\<rfloor>"
        by simp
      moreover have "0 \<le> \<lfloor>time_accumulator s1 * 32\<rfloor>"
        using n0 by (intro zero_le_floor [THEN iffD2]) simp
      ultimately have m: "nat \<lfloor>time_accumulator s1 * 32\<rfloor> < nat \<lfloor>time_accumulator s * 32\<rfloor>"
        by linarith
      from less.hyps [OF m d1 n0 n1 db1] obtain r where
        r: "simulate_loop_d R upd ft s1 = Some r" and
        rr: "\<forall>s'. r = Inr s' \<longrightarrow> clock_after_d s1 s'"
        by blast
      have eq: "simulate_loop_d R upd ft s = Some r"
        using True Inr r by (simp add: simulate_loop_d_iter)
      have "clock_after_d s s'" if "r = Inr s'" for s'
      proof -
        from rr that have h: "clock_after_d s1 s'" by blast
        define k where "k = steps_taken s' - steps_taken s1"
        from h have le: "steps_taken s1 \<le> steps_taken s'" by (simp add: clock_after_d_def)
        have k: "steps_taken s' - steps_taken s = Suc k"
          using le c(4) by (simp add: k_def)
        from h have "\<bar>time_accumulator s' + real (steps_taken s' - steps_taken s1) * dt s1
                        - time_accumulator s1\<bar>
                       \<le> real (steps_taken s' - steps_taken s1) / 2 ^ 56"
          unfolding clock_after_d_def by blast
        then have e1: "\<bar>time_accumulator s' + real k * dt s - time_accumulator s1\<bar>
                         \<le> real k / 2 ^ 56"
          unfolding k_def c(2) .
        have "\<bar>time_accumulator s' + real (Suc k) * dt s - time_accumulator s\<bar>
                \<le> real (Suc k) / 2 ^ 56"
        proof -
          have "time_accumulator s' + real (Suc k) * dt s - time_accumulator s
                  = (time_accumulator s' + real k * dt s - time_accumulator s1)
                    + (time_accumulator s1 - x)"
            by (simp add: x_def d algebra_simps)
          moreover have "real (Suc k) / 2 ^ 56 = real k / 2 ^ 56 + 1 / 2 ^ 56"
            by (simp add: add_divide_distrib)
          ultimately show ?thesis using e1 er by linarith
        qed
        moreover from h have "time_accumulator s' < dt s1" "dt s' = dt s1"
          "time_scale s' = time_scale s1"
          "0 \<le> time_accumulator s'" "fl (time_accumulator s') = time_accumulator s'"
          unfolding clock_after_d_def by blast+
        moreover have "steps_taken s \<le> steps_taken s'" using le c(4) by simp
        ultimately show ?thesis
          unfolding clock_after_d_def k c(2) c(3) by blast
      qed
      with eq show ?thesis by blast
    qed
  qed
qed

text \<open>One call with \<open>time_scale = 1\<close> and a frame time that is a double in
  \<open>[0, 0.1]\<close>, from an accumulator that is a double in \<open>[0, dt)\<close>: the sum and every
  subtraction round once.\<close>

lemma simulate_d_forward:
  assumes hk: "hook_keeps_clock upd" and d: "dt s = fl (1 / 20)"
    and lo: "0 \<le> time_accumulator s" and hi: "time_accumulator s < dt s"
    and db: "fl (time_accumulator s) = time_accumulator s"
    and ts: "time_scale s = 1"
    and f: "fl ft = ft" and f0: "0 \<le> ft" and f1: "ft \<le> fl 0.1"
  shows "\<exists>r. simulate_d R upd ft s = Some r \<and>
     (\<forall>s'. r = Inr s' \<longrightarrow>
        dt s' = dt s \<and> time_scale s' = 1 \<and>
        0 \<le> time_accumulator s' \<and> time_accumulator s' < dt s \<and>
        fl (time_accumulator s') = time_accumulator s' \<and>
        steps_taken s \<le> steps_taken s' \<and>
        \<bar>time_accumulator s' + real (steps_taken s' - steps_taken s) * dt s
           - (time_accumulator s + ft)\<bar>
          \<le> real (Suc (steps_taken s' - steps_taken s)) / 2 ^ 56)"
proof -
  define x where "x = time_accumulator s + ft"
  define s1 where "s1 = s\<lparr> time_accumulator := fl x \<rparr>"
  have sim: "simulate_d R upd ft s =
      (case simulate_loop_d R upd ft s1 of
         None \<Rightarrow> None
       | Some (Inl e) \<Rightarrow> Some (Inl e)
       | Some (Inr s2) \<Rightarrow> Some (Inr (blend_bodies_d s2)))"
    using f1 by (simp add: simulate_d_def s1_def x_def Let_def ts f min_def)
  have x0: "0 \<le> x" using lo f0 by (simp add: x_def)
  have x1: "x < 1 / 5"
    using hi f1 unfolding x_def d fl_twentieth by (simp add: fl_tenth)
  have er: "\<bar>fl x - x\<bar> \<le> 1 / 2 ^ 56"
    using x0 x1 by (intro fl_error_quarter) simp
  have s1: "dt s1 = fl (1 / 20)" "time_scale s1 = 1" "steps_taken s1 = steps_taken s"
    "time_accumulator s1 = fl x"
    by (simp_all add: s1_def d ts)
  have a0: "0 \<le> time_accumulator s1" unfolding s1(4) using x0 by (rule fl_nonneg)
  have a1: "time_accumulator s1 < 1 / 4"
  proof -
    have "(1::real) / 2 ^ 56 = 1 / 72057594037927936" by simp
    with er x1 show ?thesis unfolding s1(4) by linarith
  qed
  have a2: "fl (time_accumulator s1) = time_accumulator s1"
    unfolding s1(4) by (rule fl_idem)
  have "\<exists>r. simulate_loop_d R upd ft s1 = Some r \<and> (\<forall>s2. r = Inr s2 \<longrightarrow> clock_after_d s1 s2)"
  proof (cases "ft = 0")
    case True
    then have "time_accumulator s1 = time_accumulator s"
      by (simp add: s1(4) x_def db)
    with hi lo d have "\<not> dt s1 \<le> \<bar>time_accumulator s1\<bar>" "time_accumulator s1 < dt s1"
      by (simp_all add: s1)
    with a0 a2 show ?thesis
      by (simp add: simulate_loop_d_exit clock_after_d_def)
  next
    case False
    with f0 have "0 < ft" by simp
    from simulate_loop_d_forward [OF hk this s1(1) a0 a1 a2] show ?thesis .
  qed
  then obtain r where r: "simulate_loop_d R upd ft s1 = Some r"
    and rr: "\<forall>s2. r = Inr s2 \<longrightarrow> clock_after_d s1 s2"
    by blast
  show ?thesis
  proof (cases r)
    case (Inl e)
    with r sim show ?thesis by simp
  next
    case (Inr s2)
    with rr have h: "clock_after_d s1 s2" by blast
    define k where "k = steps_taken s2 - steps_taken s"
    from h have c: "dt s2 = dt s" "time_scale s2 = 1" "0 \<le> time_accumulator s2"
      "time_accumulator s2 < dt s" "fl (time_accumulator s2) = time_accumulator s2"
      "steps_taken s \<le> steps_taken s2"
      unfolding clock_after_d_def s1(1,2,3) d by blast+
    from h have "\<bar>time_accumulator s2 + real (steps_taken s2 - steps_taken s1) * dt s1
                   - time_accumulator s1\<bar>
                  \<le> real (steps_taken s2 - steps_taken s1) / 2 ^ 56"
      unfolding clock_after_d_def by blast
    then have e1: "\<bar>time_accumulator s2 + real k * dt s - fl x\<bar> \<le> real k / 2 ^ 56"
      unfolding k_def s1 d .
    have e2: "\<bar>time_accumulator s2 + real k * dt s - (time_accumulator s + ft)\<bar>
                \<le> real (Suc k) / 2 ^ 56"
    proof -
      have "time_accumulator s2 + real k * dt s - (time_accumulator s + ft)
              = (time_accumulator s2 + real k * dt s - fl x) + (fl x - x)"
        by (simp add: x_def)
      moreover have "real (Suc k) / 2 ^ 56 = real k / 2 ^ 56 + 1 / 2 ^ 56"
        by (simp add: add_divide_distrib)
      ultimately show ?thesis using e1 er by linarith
    qed
    have "simulate_d R upd ft s = Some (Inr (blend_bodies_d s2))"
      using r Inr sim by simp
    with c e2 show ?thesis
      unfolding k_def by (simp add: blend_bodies_d_clock)
  qed
qed

lemma simulate_all_d_forward:
  assumes hk: "hook_keeps_clock upd"
  shows "dt s = fl (1 / 20) \<Longrightarrow> 0 \<le> time_accumulator s \<Longrightarrow> time_accumulator s < dt s \<Longrightarrow>
     fl (time_accumulator s) = time_accumulator s \<Longrightarrow> time_scale s = 1 \<Longrightarrow>
     \<forall>ft \<in> set fts. fl ft = ft \<and> 0 \<le> ft \<and> ft \<le> fl 0.1 \<Longrightarrow>
     \<exists>r. simulate_all_d R upd fts s = Some r \<and>
       (\<forall>s'. r = Inr s' \<longrightarrow>
          0 \<le> time_accumulator s' \<and> time_accumulator s' < dt s \<and>
          steps_taken s \<le> steps_taken s' \<and>
          \<bar>time_accumulator s' + real (steps_taken s' - steps_taken s) * dt s
             - (time_accumulator s + sum_list fts)\<bar>
            \<le> real (length fts + (steps_taken s' - steps_taken s)) / 2 ^ 56)"
proof (induction fts arbitrary: s)
  case Nil
  then show ?case by simp
next
  case (Cons ft fts)
  from Cons.prems(6) have ft: "fl ft = ft" "0 \<le> ft" "ft \<le> fl 0.1"
    and rest: "\<forall>ft \<in> set fts. fl ft = ft \<and> 0 \<le> ft \<and> ft \<le> fl 0.1" by simp_all
  from simulate_d_forward [OF hk Cons.prems(1,2,3,4,5) ft, of R] obtain r1 where
    r1: "simulate_d R upd ft s = Some r1" and
    p1: "\<forall>s1. r1 = Inr s1 \<longrightarrow>
        dt s1 = dt s \<and> time_scale s1 = 1 \<and>
        0 \<le> time_accumulator s1 \<and> time_accumulator s1 < dt s \<and>
        fl (time_accumulator s1) = time_accumulator s1 \<and>
        steps_taken s \<le> steps_taken s1 \<and>
        \<bar>time_accumulator s1 + real (steps_taken s1 - steps_taken s) * dt s
           - (time_accumulator s + ft)\<bar>
          \<le> real (Suc (steps_taken s1 - steps_taken s)) / 2 ^ 56"
    by blast
  show ?case
  proof (cases r1)
    case (Inl e)
    with r1 show ?thesis by simp
  next
    case (Inr s1)
    with p1 have q: "dt s1 = dt s" "time_scale s1 = 1"
        "0 \<le> time_accumulator s1" "time_accumulator s1 < dt s"
        "fl (time_accumulator s1) = time_accumulator s1"
        "steps_taken s \<le> steps_taken s1"
      and e1: "\<bar>time_accumulator s1 + real (steps_taken s1 - steps_taken s) * dt s
           - (time_accumulator s + ft)\<bar>
          \<le> real (Suc (steps_taken s1 - steps_taken s)) / 2 ^ 56"
      by blast+
    have d1: "dt s1 = fl (1 / 20)" and h1: "time_accumulator s1 < dt s1"
      using q(1,4) Cons.prems(1) by simp_all
    from Cons.IH [OF d1 q(3) h1 q(5) q(2) rest] obtain r where
      r: "simulate_all_d R upd fts s1 = Some r" and
      p: "\<forall>s'. r = Inr s' \<longrightarrow>
          0 \<le> time_accumulator s' \<and> time_accumulator s' < dt s1 \<and>
          steps_taken s1 \<le> steps_taken s' \<and>
          \<bar>time_accumulator s' + real (steps_taken s' - steps_taken s1) * dt s1
             - (time_accumulator s1 + sum_list fts)\<bar>
            \<le> real (length fts + (steps_taken s' - steps_taken s1)) / 2 ^ 56"
      by blast
    have run: "simulate_all_d R upd (ft # fts) s = Some r"
      using r1 Inr r by simp
    have "0 \<le> time_accumulator s' \<and> time_accumulator s' < dt s \<and>
          steps_taken s \<le> steps_taken s' \<and>
          \<bar>time_accumulator s' + real (steps_taken s' - steps_taken s) * dt s
             - (time_accumulator s + sum_list (ft # fts))\<bar>
            \<le> real (length (ft # fts) + (steps_taken s' - steps_taken s)) / 2 ^ 56"
      if "r = Inr s'" for s'
    proof -
      define k1 where "k1 = steps_taken s1 - steps_taken s"
      define k2 where "k2 = steps_taken s' - steps_taken s1"
      from p that have b: "0 \<le> time_accumulator s'" "time_accumulator s' < dt s1"
        "steps_taken s1 \<le> steps_taken s'"
        and e2: "\<bar>time_accumulator s' + real (steps_taken s' - steps_taken s1) * dt s1
             - (time_accumulator s1 + sum_list fts)\<bar>
            \<le> real (length fts + (steps_taken s' - steps_taken s1)) / 2 ^ 56"
        by blast+
      have k: "steps_taken s' - steps_taken s = k1 + k2"
        using q(6) b(3) by (simp add: k1_def k2_def)
      have e1': "\<bar>time_accumulator s1 + real k1 * dt s - (time_accumulator s + ft)\<bar>
                   \<le> real (Suc k1) / 2 ^ 56"
        using e1 unfolding k1_def .
      have e2': "\<bar>time_accumulator s' + real k2 * dt s - (time_accumulator s1 + sum_list fts)\<bar>
                   \<le> real (length fts + k2) / 2 ^ 56"
        using e2 unfolding k2_def q(1) .
      have "\<bar>time_accumulator s' + real (k1 + k2) * dt s
               - (time_accumulator s + sum_list (ft # fts))\<bar>
              \<le> real (length (ft # fts) + (k1 + k2)) / 2 ^ 56"
      proof -
        have "time_accumulator s' + real (k1 + k2) * dt s
                - (time_accumulator s + sum_list (ft # fts))
              = (time_accumulator s' + real k2 * dt s - (time_accumulator s1 + sum_list fts))
                + (time_accumulator s1 + real k1 * dt s - (time_accumulator s + ft))"
          by (simp add: algebra_simps)
        moreover have "real (length (ft # fts) + (k1 + k2)) / 2 ^ 56
              = real (length fts + k2) / 2 ^ 56 + real (Suc k1) / 2 ^ 56"
          by (simp add: add_divide_distrib)
        ultimately show ?thesis using e1' e2' by linarith
      qed
      moreover have "steps_taken s \<le> steps_taken s'" using q(6) b(3) by simp
      ultimately show ?thesis using b(1,2) unfolding k q(1) by blast
    qed
    with run show ?thesis by blast
  qed
qed

text \<open>
  C4, as amended, on the doubles of the code: for a hook that keeps the clock, a
  Simulation with the constructor's \<open>dt = 1 / 20\<close>, nothing pending and
  \<open>time_scale = 1\<close>, and any run of \<open>n\<close> frame times that are doubles in \<open>[0, 0.1]\<close>
  with exact sum \<open>T\<close>: the run returns (or the hook throws), and after a normal return
  the number \<open>k\<close> of fixed steps taken satisfies
  \<open>\<bar>k \<cdot> dt - T\<bar> < dt + (n + k) \<cdot> 2\<^sup>-\<^sup>5\<^sup>6\<close>: each of the \<open>n\<close> additions to the accumulator
  and of the \<open>k\<close> subtractions from it rounds by at most \<open>2\<^sup>-\<^sup>5\<^sup>6\<close>.
\<close>

theorem simulate_all_d_steps_match_time:
  assumes "hook_keeps_clock upd" and "time_accumulator s = 0" and "dt s = fl (1 / 20)"
    and "time_scale s = 1" and "\<forall>ft \<in> set fts. fl ft = ft \<and> 0 \<le> ft \<and> ft \<le> fl 0.1"
  shows "(\<exists>r. simulate_all_d R upd fts s = Some r) \<and>
         (\<forall>s'. simulate_all_d R upd fts s = Some (Inr s') \<longrightarrow>
            steps_taken s \<le> steps_taken s' \<and>
            \<bar>real (steps_taken s' - steps_taken s) * dt s - sum_list fts\<bar>
              < dt s + real (length fts + (steps_taken s' - steps_taken s)) / 2 ^ 56)"
proof -
  have a: "0 \<le> time_accumulator s" "time_accumulator s < dt s"
    "fl (time_accumulator s) = time_accumulator s"
    using assms(2,3) by (simp_all add: fl_zero fl_twentieth)
  from simulate_all_d_forward [OF assms(1,3) a assms(4,5), of R] obtain r where
    r: "simulate_all_d R upd fts s = Some r" and
    p: "\<forall>s'. r = Inr s' \<longrightarrow>
          0 \<le> time_accumulator s' \<and> time_accumulator s' < dt s \<and>
          steps_taken s \<le> steps_taken s' \<and>
          \<bar>time_accumulator s' + real (steps_taken s' - steps_taken s) * dt s
             - (time_accumulator s + sum_list fts)\<bar>
            \<le> real (length fts + (steps_taken s' - steps_taken s)) / 2 ^ 56"
    by blast
  have "steps_taken s \<le> steps_taken s' \<and>
        \<bar>real (steps_taken s' - steps_taken s) * dt s - sum_list fts\<bar>
          < dt s + real (length fts + (steps_taken s' - steps_taken s)) / 2 ^ 56"
    if "simulate_all_d R upd fts s = Some (Inr s')" for s'
  proof -
    from that r p have q: "0 \<le> time_accumulator s'" "time_accumulator s' < dt s"
      "steps_taken s \<le> steps_taken s'"
      "\<bar>time_accumulator s' + real (steps_taken s' - steps_taken s) * dt s
         - (time_accumulator s + sum_list fts)\<bar>
        \<le> real (length fts + (steps_taken s' - steps_taken s)) / 2 ^ 56"
      by auto
    from q(1,2,4) assms(2) have
      "\<bar>real (steps_taken s' - steps_taken s) * dt s - sum_list fts\<bar>
         < dt s + real (length fts + (steps_taken s' - steps_taken s)) / 2 ^ 56"
      by linarith
    with q(3) show ?thesis by blast
  qed
  with r show ?thesis by blast
qed

section \<open>Runs on doubles\<close>

text \<open>The doubles met in the runs below, each with the binade that holds the number
  rounded.\<close>

lemma fl_fortieth: "fl (1 / 40) = 3602879701896397 / 144115188075855872"
  by (subst fl_eval [where e = "- 6"]) (simp_all add: pow2_def round_even_def Let_def)

lemma fl_fifth: "fl (1 / 5) = 3602879701896397 / 18014398509481984"
  by (subst fl_eval [where e = "- 3"]) (simp_all add: pow2_def round_even_def Let_def)

lemma fl_doubles:
  "fl (3602879701896397 / 144115188075855872) = 3602879701896397 / 144115188075855872"
  "fl (3602879701896397 / 72057594037927936) = 3602879701896397 / 72057594037927936"
  "fl (3602879701896397 / 36028797018963968) = 3602879701896397 / 36028797018963968"
  "fl (3602879701896397 / 18014398509481984) = 3602879701896397 / 18014398509481984"
  using fl_idem [of "1 / 40"] fl_idem [of "1 / 20"] fl_idem [of "1 / 10"] fl_idem [of "1 / 5"]
  by (simp_all only: fl_fortieth fl_twentieth fl_tenth fl_fifth)

lemma fl_run_sum:
  "fl (18014398509481985 / 144115188075855872) = 1 / 8"
  by (subst fl_eval [where e = "- 3"]) (simp_all add: pow2_def round_even_def Let_def)

lemma fl_run_step_1:
  "fl (5404319552844595 / 72057594037927936) = 5404319552844595 / 72057594037927936"
  by (subst fl_eval [where e = "- 4"]) (simp_all add: pow2_def round_even_def Let_def)

lemma fl_run_step_2:
  "fl (900719925474099 / 36028797018963968) = 900719925474099 / 36028797018963968"
  by (subst fl_eval [where e = "- 6"]) (simp_all add: pow2_def round_even_def Let_def)

lemma fl_back_step_1:
  "fl (10808639105689191 / 72057594037927936) = 1351079888211149 / 9007199254740992"
  by (subst fl_eval [where e = "- 3"]) (simp_all add: pow2_def round_even_def Let_def)

lemma fl_back_step_2:
  "fl (7205759403792795 / 72057594037927936) = 7205759403792795 / 72057594037927936"
  by (subst fl_eval [where e = "- 4"]) (simp_all add: pow2_def round_even_def Let_def)

lemma fl_back_step_3:
  "fl (1801439850948199 / 36028797018963968) = 1801439850948199 / 36028797018963968"
  by (subst fl_eval [where e = "- 5"]) (simp_all add: pow2_def round_even_def Let_def)

lemma fl_back_step_4:
  "fl (1 / 72057594037927936) = 1 / 72057594037927936"
  by (subst fl_eval [where e = "- 56"]) (simp_all add: pow2_def round_even_def Let_def)

lemma fl_back_clock:
  "fl (14411518807585589 / 72057594037927936) = 3602879701896397 / 18014398509481984"
  by (subst fl_eval [where e = "- 3"]) (simp_all add: pow2_def round_even_def Let_def)

lemmas fl_values =
  fl_zero fl_minus fl_idem fl_twentieth fl_tenth fl_fortieth fl_fifth fl_doubles fl_below_dt
  fl_run_sum fl_run_step_1 fl_run_step_2
  fl_back_step_1 fl_back_step_2 fl_back_step_3 fl_back_step_4 fl_back_clock

lemmas simulate_d_unfold =
  simulate_d_def Simulation_new_d_def simulate_loop_d_iter simulate_loop_d_exit
  fixed_step_d_def keep_state_def blend_bodies_d_def Let_def

lemma simulate_d_clamped_run:
  "simulate_d rotate_by keep_state (fl 0.1) Simulation_new_d
     = Some (Inr (Simulation_new_d\<lparr> t := fl 0.1, steps_taken := 2 \<rparr>))"
  by (simp add: simulate_d_unfold fl_values)

lemma simulate_d_backward_run:
  "simulate_d rotate_by keep_state (- fl 0.2) Simulation_new_d
     = Some (Inr (Simulation_new_d
          \<lparr> time_accumulator := - (1 / 2 ^ 56), t := - fl 0.2, steps_taken := 4 \<rparr>))"
  by (simp add: simulate_d_unfold fl_values)

lemma simulate_all_d_forward_run:
  "simulate_all_d rotate_by keep_state [fl 0.025, fl 0.1, fl 0.025] Simulation_new_d
     = Some (Inr (Simulation_new_d
          \<lparr> time_accumulator := 7205759403792793 / 2 ^ 57, t := fl 0.1,
            steps_taken := 2 \<rparr>))"
  by (simp add: simulate_d_unfold fl_values)

text \<open>
  The bound of C3 as the spec states it, for every sign of the frame time, fails on the
  code: \<open>Math.min(frame_time, 0.1)\<close> lets a negative frame time through unclamped, and
  \<open>simulate(-0.2)\<close> on a new Simulation runs four fixed steps, where
  \<open>0.1 / dt = 2\<close>.
\<close>

theorem simulate_d_steps_counterexample:
  "simulate_d rotate_by keep_state (- fl 0.2) Simulation_new_d
     = Some (Inr (Simulation_new_d
          \<lparr> time_accumulator := - (1 / 2 ^ 56), t := - fl 0.2, steps_taken := 4 \<rparr>)) \<and>
   \<bar>time_accumulator Simulation_new_d\<bar> < dt Simulation_new_d \<and>
   \<not> real (steps_taken (Simulation_new_d
                \<lparr> time_accumulator := - (1 / 2 ^ 56), t := - fl 0.2, steps_taken := 4 \<rparr>)
            - steps_taken Simulation_new_d)
       \<le> fl 0.1 / dt Simulation_new_d \<and>
   \<not> (4 :: real) \<le> 0.1 / (1 / 20)"
  using simulate_d_backward_run
  by (simp add: Simulation_new_d_def fl_twentieth fl_tenth)

theorem simulate_d_steps_bounded_witness:
  "hook_keeps_clock (keep_state :: real \<Rightarrow> simulation \<Rightarrow> string + simulation) \<and>
   dt Simulation_new_d = fl (1 / 20) \<and>
   fl (time_accumulator Simulation_new_d) = time_accumulator Simulation_new_d \<and>
   \<bar>time_accumulator Simulation_new_d\<bar> < dt Simulation_new_d \<and>
   0 \<le> fl (time_scale Simulation_new_d * fl 0.1) \<and>
   simulate_d rotate_by keep_state (fl 0.1) Simulation_new_d
     = Some (Inr (Simulation_new_d\<lparr> t := fl 0.1, steps_taken := 2 \<rparr>)) \<and>
   real (steps_taken (Simulation_new_d\<lparr> t := fl 0.1, steps_taken := 2 \<rparr>)
           - steps_taken Simulation_new_d)
     \<le> fl 0.1 / dt Simulation_new_d"
proof -
  have p: "dt Simulation_new_d = fl (1 / 20)"
    "fl (time_accumulator Simulation_new_d) = time_accumulator Simulation_new_d"
    "\<bar>time_accumulator Simulation_new_d\<bar> < dt Simulation_new_d"
    "0 \<le> fl (time_scale Simulation_new_d * fl 0.1)"
    by (simp_all add: Simulation_new_d_def fl_values)
  from simulate_d_steps_bounded [OF keep_state_keeps_clock p, of rotate_by]
  show ?thesis
    using p keep_state_keeps_clock simulate_d_clamped_run by simp
qed

text \<open>
  The bound of C4 as the spec states it fails on the code: the frame times \<open>0.025\<close>,
  \<open>0.1\<close>, \<open>0.025\<close> are, as doubles, \<open>dt / 2\<close>, \<open>2 \<cdot> dt\<close> and \<open>dt / 2\<close>, three
  steps' worth of time, but the sum \<open>0.025 + 0.1\<close> rounds down to \<open>0.125\<close>, the run
  takes two steps and keeps the largest double below \<open>dt\<close> in the accumulator. So
  \<open>\<bar>2 \<cdot> dt - T\<bar>\<close> is \<open>dt\<close>, not less, for the sum of the doubles as for the sum of the
  decimal numbers.
\<close>

theorem simulate_all_d_steps_counterexample:
  "simulate_all_d rotate_by keep_state [fl 0.025, fl 0.1, fl 0.025] Simulation_new_d
     = Some (Inr (Simulation_new_d
          \<lparr> time_accumulator := 7205759403792793 / 2 ^ 57, t := fl 0.1,
            steps_taken := 2 \<rparr>)) \<and>
   time_accumulator Simulation_new_d = 0 \<and> time_scale Simulation_new_d = 1 \<and>
   0 \<le> fl 0.025 \<and> fl 0.025 \<le> fl 0.1 \<and> 0 \<le> fl 0.1 \<and>
   \<not> \<bar>real (steps_taken (Simulation_new_d
                   \<lparr> time_accumulator := 7205759403792793 / 2 ^ 57, t := fl 0.1,
                     steps_taken := 2 \<rparr>)
               - steps_taken Simulation_new_d) * dt Simulation_new_d
         - sum_list [fl 0.025, fl 0.1, fl 0.025]\<bar>
       < dt Simulation_new_d \<and>
   \<not> \<bar>(2 :: real) * (1 / 20) - (0.025 + 0.1 + 0.025)\<bar> < 1 / 20"
  using simulate_all_d_forward_run
  by (simp add: Simulation_new_d_def fl_twentieth fl_tenth fl_fortieth)

theorem simulate_all_d_steps_match_time_witness:
  "hook_keeps_clock (keep_state :: real \<Rightarrow> simulation \<Rightarrow> string + simulation) \<and>
   time_accumulator Simulation_new_d = 0 \<and> dt Simulation_new_d = fl (1 / 20) \<and>
   time_scale Simulation_new_d = 1 \<and>
   list_all (\<lambda>ft. fl ft = ft \<and> 0 \<le> ft \<and> ft \<le> fl 0.1) [fl 0.025, fl 0.1, fl 0.025] \<and>
   simulate_all_d rotate_by keep_state [fl 0.025, fl 0.1, fl 0.025] Simulation_new_d
     = Some (Inr (Simulation_new_d
          \<lparr> time_accumulator := 7205759403792793 / 2 ^ 57, t := fl 0.1,
            steps_taken := 2 \<rparr>)) \<and>
   \<bar>real (steps_taken (Simulation_new_d
                \<lparr> time_accumulator := 7205759403792793 / 2 ^ 57, t := fl 0.1,
                  steps_taken := 2 \<rparr>)
            - steps_taken Simulation_new_d) * dt Simulation_new_d
      - sum_list [fl 0.025, fl 0.1, fl 0.025]\<bar>
     < dt Simulation_new_d
       + real (length [fl 0.025, fl 0.1, fl 0.025 :: real]
               + (steps_taken (Simulation_new_d
                     \<lparr> time_accumulator := 7205759403792793 / 2 ^ 57, t := fl 0.1,
                       steps_taken := 2 \<rparr>)
                  - steps_taken Simulation_new_d)) / 2 ^ 56"
proof -
  have p: "time_accumulator Simulation_new_d = 0" "dt Simulation_new_d = fl (1 / 20)"
    "time_scale Simulation_new_d = 1"
    by (simp_all add: Simulation_new_d_def)
  have l: "list_all (\<lambda>ft. fl ft = ft \<and> 0 \<le> ft \<and> ft \<le> fl 0.1) [fl 0.025, fl 0.1, fl 0.025]"
    by (simp add: fl_idem) (simp add: fl_fortieth fl_tenth)
  then have q: "\<forall>ft \<in> set [fl 0.025, fl 0.1, fl 0.025]. fl ft = ft \<and> 0 \<le> ft \<and> ft \<le> fl 0.1"
    unfolding list_all_iff .
  from simulate_all_d_steps_match_time [OF keep_state_keeps_clock p q, of rotate_by]
    simulate_all_d_forward_run
  have "\<bar>real (steps_taken (Simulation_new_d
                \<lparr> time_accumulator := 7205759403792793 / 2 ^ 57, t := fl 0.1,
                  steps_taken := 2 \<rparr>)
            - steps_taken Simulation_new_d) * dt Simulation_new_d
      - sum_list [fl 0.025, fl 0.1, fl 0.025]\<bar>
     < dt Simulation_new_d
       + real (length [fl 0.025, fl 0.1, fl 0.025 :: real]
               + (steps_taken (Simulation_new_d
                     \<lparr> time_accumulator := 7205759403792793 / 2 ^ 57, t := fl 0.1,
                       steps_taken := 2 \<rparr>)
                  - steps_taken Simulation_new_d)) / 2 ^ 56"
    by blast
  with p l keep_state_keeps_clock simulate_all_d_forward_run show ?thesis
    by blast
qed

end
